theory Spec2Isabelle
  imports Main "HOL-Library.Word"
begin

section \<open>Data model of the Solidity transaction debugger (src/debug/sol_debugger.ts)\<close>

subsection \<open>Buffers, addresses, hex strings\<close>

type_synonym byte = "8 word"
type_synonym Buffer = "byte list"
type_synonym HexString = string
type_synonym UnprefixedHexString = string

text \<open>
  Node's \<open>Buffer.slice(start, end)\<close> and \<open>Array.slice(start, end)\<close>: a negative index
  counts from the end, and both indices are clamped to the length.
\<close>

definition relIndex :: "int \<Rightarrow> nat \<Rightarrow> nat" where
  "relIndex i n = (if i < 0 then nat (max (int n + i) 0) else min (nat i) n)"

definition slice :: "'a list \<Rightarrow> int \<Rightarrow> int \<Rightarrow> 'a list" where
  "slice xs s e = (let a = relIndex s (length xs); b = relIndex e (length xs)
                   in take (b - a) (drop a xs))"

text \<open>
  ethereumjs-util's \<open>Address\<close>: a wrapper around a buffer; \<open>toString()\<close> is \<open>"0x"\<close>
  followed by the lower-case hex digits of the buffer, \<open>equals\<close> compares the buffers.
\<close>

datatype Address = Address (buf: Buffer)

definition hexDigit :: "nat \<Rightarrow> char" where
  "hexDigit n = ''0123456789abcdef'' ! (n mod 16)"

definition byteToHex :: "byte \<Rightarrow> string" where
  "byteToHex b = [hexDigit (unat b div 16), hexDigit (unat b mod 16)]"

definition toHex :: "Buffer \<Rightarrow> string" where
  "toHex bs = concat (map byteToHex bs)"

definition Address_toString :: "Address \<Rightarrow> HexString" where
  "Address_toString a = ''0x'' @ toHex (buf a)"

text \<open>
  Modelled from the spec: the constants \<open>ZERO_ADDRESS\<close> and \<open>ZERO_ADDRESS_STRING\<close> of the
  package index are not under src/; "zero-address is 20 zero bytes", and the string is
  its \<open>toString()\<close> rendering.
\<close>

definition ZERO_ADDRESS :: Address where
  "ZERO_ADDRESS = Address (replicate 20 0)"

definition ZERO_ADDRESS_STRING :: HexString where
  "ZERO_ADDRESS_STRING = ''0x0000000000000000000000000000000000000000''"

text \<open>
  Modelled from the spec: \<open>bigEndianBufToBigint\<close>, \<open>bigEndianBufToNumber\<close> and
  \<open>wordToAddress\<close> of the package utilities are not under src/; a buffer is read as a
  big-endian unsigned integer, and a word as an address through its rightmost 20 bytes.
\<close>

definition bigEndianBufToBigint :: "Buffer \<Rightarrow> nat" where
  "bigEndianBufToBigint b = foldl (\<lambda>acc x. acc * 256 + unat x) 0 b"

definition bigEndianBufToNumber :: "Buffer \<Rightarrow> nat" where
  "bigEndianBufToNumber b = bigEndianBufToBigint b"

definition wordToAddress :: "Buffer \<Rightarrow> Address" where
  "wordToAddress w = Address (drop (length w - 20) w)"

text \<open>\<open>BN.toArray("be", 32)\<close> on a 256-bit VM word: its 32 bytes, most significant first.\<close>

definition toArray_be32 :: "256 word \<Rightarrow> Buffer" where
  "toArray_be32 w = map (\<lambda>i. ucast (drop_bit (8 * (31 - i)) w)) [0..<32]"

subsection \<open>Errors\<close>

text \<open>
  Every throw of the source is a value: \<open>TypeError\<close> is JavaScript's error on reading a
  property of \<open>undefined\<close> (an empty frame stack, an operand stack that is too shallow);
  the three assertion failures are the \<open>assert\<close> calls of \<open>adjustStackFrame\<close> and
  \<open>decodeFunArgs\<close>; \<open>LookupFailed\<close> is a throw of the source-map lookup.
\<close>

datatype error =
    TypeError
  | UnexpectedDepthIncrease string
  | MismatchedInternalReturn
  | StackUnderflow
  | LookupFailed

subsection \<open>Compiler artifacts (solc-typed-ast and the artifact manager)\<close>

text \<open>
  Modelled from the spec: \<open>TypeNode\<close> and \<open>isCalldataType2Slots\<close> (./decoding) are not
  under src/; a type occupies two stack slots when it is "a calldata pointer-and-length
  pair (dynamic-size calldata types)", and one otherwise. The node carries that answer.
\<close>

datatype TypeNode = TypeNode (typeString: string) (calldataPointerAndLength: bool)

definition isCalldataType2Slots :: "TypeNode \<Rightarrow> bool" where
  "isCalldataType2Slots t = calldataPointerAndLength t"

datatype ABIEncoderVersion = V1 | V2

text \<open>
  AST nodes as the debugger uses them. A field of option type stands for a library call
  that may throw (\<open>None\<close>): \<open>variableDeclarationToTypeNode(argDef)\<close>,
  \<open>getterArgsAndReturn()[0]\<close>, \<open>getterCanonicalSignatureHash(abiVersion)\<close>.
\<close>

record VariableDeclaration =
  name :: string
  stateVariable :: bool
  visibilityPublic :: bool
  toTypeNode :: "TypeNode option"
  getterArgs :: "TypeNode list option"
  getterCanonicalSignatureHash :: "ABIEncoderVersion \<Rightarrow> string option"

record FunctionDefinition =
  getFunctionSelector :: UnprefixedHexString
  vParameters :: "VariableDeclaration list"

datatype ASTNode =
    FunDef FunctionDefinition
  | VarDecl VariableDeclaration
  | OtherNode nat

record DecodedBytecodeSourceMapEntry =
  start :: int
  len :: int
  sourceIndex :: int
  jump :: string

record ContractDefinition =
  vFunctions :: "FunctionDefinition list"
  vStateVariables :: "VariableDeclaration list"
  vConstructor :: "ASTNode option"

text \<open>
  Modelled from the spec: \<open>ContractInfo\<close> and \<open>getOffsetSrc\<close> (./artifact_manager) are not
  under src/. A bytecode record is what \<open>getOffsetSrc(pc, bytecodeInfo)\<close> answers for each
  program counter (\<open>None\<close> where it throws); \<open>srcMap\<close> is keyed by the triple that the
  source renders as \<open>"start:length:sourceIndex"\<close>.
\<close>

type_synonym BytecodeInfo = "nat \<Rightarrow> DecodedBytecodeSourceMapEntry option"

record ContractInfo =
  bytecode :: BytecodeInfo
  deployedBytecode :: BytecodeInfo
  ast :: "ContractDefinition option"
  srcMap :: "int \<times> int \<times> int \<Rightarrow> ASTNode option"
  abiEncoderVersion :: ABIEncoderVersion

definition getOffsetSrc :: "nat \<Rightarrow> BytecodeInfo \<Rightarrow> error + DecodedBytecodeSourceMapEntry" where
  "getOffsetSrc off bytecodeInfo =
     (case bytecodeInfo off of None \<Rightarrow> Inl LookupFailed | Some src \<Rightarrow> Inr src)"

subsection \<open>Data locations and views\<close>

datatype DataLocationKind = Stack | Memory | Storage | CallData

datatype DataLocation =
    StackLocation int
  | LinearMemoryLocation nat
  | CalldataLocation nat
  | StorageLocation nat nat

fun locKind :: "DataLocation \<Rightarrow> DataLocationKind" where
  "locKind (StackLocation _) = Stack"
| "locKind (LinearMemoryLocation _) = Memory"
| "locKind (CalldataLocation _) = CallData"
| "locKind (StorageLocation _ _) = Storage"

record DataView =
  vtype :: TypeNode
  originalType :: "TypeNode option"
  loc :: DataLocation

type_synonym Arguments = "(string \<times> DataView option) list"

subsection \<open>Frames\<close>

datatype FrameKind = Call | Creation | InternalCall

record BaseFrame =
  callee :: "ASTNode option"
  arguments :: "Arguments option"
  startStep :: nat

record BaseExternalFrame = BaseFrame +
  sender :: HexString
  msgData :: Buffer
  address :: Address
  info :: "ContractInfo option"

record CallFrame = BaseExternalFrame +
  receiver :: HexString
  code :: Buffer

record CreationFrame = BaseExternalFrame +
  creationCode :: Buffer

datatype ExternalFrame = CallF CallFrame | CreationF CreationFrame

record InternalCallFrame = BaseFrame +
  nearestExtFrame :: ExternalFrame
  offset :: nat

datatype Frame = External ExternalFrame | Internal InternalCallFrame

type_synonym DbgStack = "Frame list"

fun kind :: "Frame \<Rightarrow> FrameKind" where
  "kind (External (CallF _)) = Call"
| "kind (External (CreationF _)) = Creation"
| "kind (Internal _) = InternalCall"

fun ext_address :: "ExternalFrame \<Rightarrow> Address" where
  "ext_address (CallF f) = address f"
| "ext_address (CreationF f) = address f"

fun ext_info :: "ExternalFrame \<Rightarrow> ContractInfo option" where
  "ext_info (CallF f) = info f"
| "ext_info (CreationF f) = info f"

text \<open>
  \<open>lastExternalFrame\<close>: the source is overloaded on a frame or a stack. On an empty stack
  \<open>arg[arg.length - 1]\<close> is \<open>undefined\<close> and reading its \<open>kind\<close> throws.
\<close>

fun lastExternalFrame_of :: "Frame \<Rightarrow> ExternalFrame" where
  "lastExternalFrame_of (Internal f) = nearestExtFrame f"
| "lastExternalFrame_of (External f) = f"

definition lastExternalFrame :: "DbgStack \<Rightarrow> error + ExternalFrame" where
  "lastExternalFrame arg =
     (if arg = [] then Inl TypeError else Inr (lastExternalFrame_of (last arg)))"

definition getContractInfo :: "DbgStack \<Rightarrow> error + ContractInfo option" where
  "getContractInfo arg =
     (case lastExternalFrame arg of Inl e \<Rightarrow> Inl e | Inr frame \<Rightarrow> Inr (ext_info frame))"

subsection \<open>Argument locations of an internal call\<close>

text \<open>
  The formals of \<open>decodeFunArgs\<close> (its \<open>try\<close> block): the parameters of a function
  with their resolved types, or the getter arguments of a state variable named
  \<open>ARG_i\<close> (\<open>digits\<close> is the decimal rendering of the template string). \<open>None\<close> is
  the \<open>catch\<close> branch, taken when a type cannot be resolved. The source's type admits
  no other node as callee.
\<close>

definition digitChar :: "nat \<Rightarrow> char" where
  "digitChar n = ''0123456789'' ! (n mod 10)"

fun digits :: "nat \<Rightarrow> string" where
  "digits n = (if n < 10 then [digitChar n] else digits (n div 10) @ [digitChar (n mod 10)])"

fun resolveParams :: "VariableDeclaration list \<Rightarrow> (string \<times> TypeNode) list option" where
  "resolveParams [] = Some []"
| "resolveParams (argDef # rest) =
     (case toTypeNode argDef of
        None \<Rightarrow> None
      | Some typ \<Rightarrow>
          (case resolveParams rest of
             None \<Rightarrow> None
           | Some fs \<Rightarrow> Some ((name argDef, typ) # fs)))"

fun formalsOf :: "ASTNode \<Rightarrow> (string \<times> TypeNode) list option" where
  "formalsOf (FunDef f) = resolveParams (vParameters f)"
| "formalsOf (VarDecl v) =
     (case getterArgs v of
        None \<Rightarrow> None
      | Some typs \<Rightarrow> Some (map (\<lambda>i. (''ARG_'' @ digits i, typs ! i)) [0..<length typs]))"
| "formalsOf (OtherNode _) = None"

text \<open>
  The loop \<open>for (let i = formals.length - 1; i >= 0; i--)\<close>: the counter of the model is
  \<open>i + 1\<close>, so that \<open>0\<close> is the exit; \<open>res.unshift\<close> is \<open>#\<close>.
\<close>

fun decodeFunArgs_loop ::
  "(string \<times> TypeNode) list \<Rightarrow> nat \<Rightarrow> int \<Rightarrow> nat \<Rightarrow> (string \<times> DataView) list
   \<Rightarrow> error + (string \<times> DataView) list" where
  "decodeFunArgs_loop formals 0 offsetFromTop stackLen res = Inr res"
| "decodeFunArgs_loop formals (Suc i) offsetFromTop stackLen res =
     (let (name, typ) = formals ! i;
          stackSize = (if isCalldataType2Slots typ then 2 else 1);
          offsetFromTop' = offsetFromTop + stackSize
      in if offsetFromTop' \<le> int stackLen
         then decodeFunArgs_loop formals i offsetFromTop' stackLen
                ((name, \<lparr>vtype = typ, originalType = None, loc = StackLocation offsetFromTop'\<rparr>) # res)
         else Inl StackUnderflow)"

definition decodeFunArgs :: "ASTNode \<Rightarrow> Buffer list \<Rightarrow> error + (string \<times> DataView) list option" where
  "decodeFunArgs calleeNode stack =
     (case formalsOf calleeNode of
        None \<Rightarrow> Inr None
      | Some formals \<Rightarrow>
          (case decodeFunArgs_loop formals (length formals) (-1) (length stack) [] of
             Inl e \<Rightarrow> Inl e
           | Inr res \<Rightarrow> Inr (Some res)))"

text \<open>The offset accumulated when formal \<open>i\<close> is reached: \<open>-1\<close> plus the slots of formals \<open>i\<close> to the last.\<close>

definition slots :: "string \<times> TypeNode \<Rightarrow> int" where
  "slots f = (if isCalldataType2Slots (snd f) then 2 else 1)"

definition accOffset :: "(string \<times> TypeNode) list \<Rightarrow> nat \<Rightarrow> int" where
  "accOffset formals i = sum_list (map slots (drop i formals)) - 1"


definition mkArg :: "(string \<times> TypeNode) list \<Rightarrow> nat \<Rightarrow> string \<times> DataView" where
  "mkArg formals i =
     (fst (formals ! i),
      \<lparr>vtype = snd (formals ! i), originalType = None, loc = StackLocation (accOffset formals i)\<rparr>)"

subsection \<open>Opcodes\<close>

record EVMOpInfo =
  opcode :: nat
  mnemonic :: string

text \<open>
  Modelled from the spec: the opcode table (./opcodes) is not under src/. The spec names
  the instructions that \<open>increasesDepth\<close> (CALL, CALLCODE, DELEGATECALL, STATICCALL,
  CREATE, CREATE2) and \<open>createsContract\<close> (CREATE, CREATE2) accept; the numbers of
  \<open>OPCODES\<close> are the VM's instruction numbers.
\<close>

definition OPCODES_SSTORE :: nat where "OPCODES_SSTORE = 0x55"
definition OPCODES_CREATE :: nat where "OPCODES_CREATE = 0xf0"
definition OPCODES_CALL :: nat where "OPCODES_CALL = 0xf1"
definition OPCODES_CALLCODE :: nat where "OPCODES_CALLCODE = 0xf2"
definition OPCODES_DELEGATECALL :: nat where "OPCODES_DELEGATECALL = 0xf4"
definition OPCODES_CREATE2 :: nat where "OPCODES_CREATE2 = 0xf5"
definition OPCODES_STATICCALL :: nat where "OPCODES_STATICCALL = 0xfa"

definition createsContract :: "EVMOpInfo \<Rightarrow> bool" where
  "createsContract o1 = (opcode o1 = OPCODES_CREATE \<or> opcode o1 = OPCODES_CREATE2)"

definition increasesDepth :: "EVMOpInfo \<Rightarrow> bool" where
  "increasesDepth o1 =
     (opcode o1 = OPCODES_CALL \<or> opcode o1 = OPCODES_CALLCODE \<or>
      opcode o1 = OPCODES_DELEGATECALL \<or> opcode o1 = OPCODES_STATICCALL \<or>
      opcode o1 = OPCODES_CREATE \<or> opcode o1 = OPCODES_CREATE2)"

subsection \<open>The VM and the other collaborators\<close>

record StateManager =
  getContractCode :: "Address \<Rightarrow> Buffer"
  dumpStorage :: "Address \<Rightarrow> (string \<times> string) list"

text \<open>The \<open>InterpreterStep\<close> of the VM's step event, with the fields the debugger reads.\<close>

record InterpreterStep =
  rawOpName :: string
  rawFee :: nat
  rawDynamicFee :: "nat option"
  rawPc :: nat
  rawDepth :: nat
  rawGasLeft :: nat
  rawAddress :: Address
  rawCodeAddress :: Address
  rawStack :: "256 word list"
  rawMemory :: Buffer
  rawStateManager :: StateManager

text \<open>
  What the debugger is given and imports from files that are not under src/: the artifact
  manager of the constructor, the code hashes (../artifacts), the ABI decoder (./abi), the
  opcode table lookups \<open>getOpInfo\<close> and \<open>changesMemory\<close> (./opcodes), and the library
  calls of \<open>getStorage\<close>. \<open>None\<close> from \<open>decodeMsgData\<close> is a throw, which its caller
  catches.
\<close>

record Env =
  getContractFromMDHash :: "HexString \<Rightarrow> ContractInfo option"
  getContractFromCreationBytecode :: "Buffer \<Rightarrow> ContractInfo option"
  getCodeHash :: "Buffer \<Rightarrow> HexString option"
  getCreationCodeHash :: "Buffer \<Rightarrow> HexString option"
  decodeMsgData :: "ASTNode \<Rightarrow> Buffer \<Rightarrow> DataLocationKind \<Rightarrow> ABIEncoderVersion \<Rightarrow> Arguments option"
  getOpInfo :: "string \<Rightarrow> EVMOpInfo"
  changesMemory :: "EVMOpInfo \<Rightarrow> bool"
  rlp_decode :: "Buffer \<Rightarrow> Buffer"
  hexToBuffer :: "string \<Rightarrow> Buffer"
  hexToBigInt :: "string \<Rightarrow> nat"

subsection \<open>Step states\<close>

text \<open>
  A memory buffer and a storage map are objects: the reference tells a fresh copy from a
  shared one, the contents are what a read sees. The debugger never writes to either
  after creating it.
\<close>

record Memory =
  memRef :: nat
  memBytes :: Buffer

record Storage =
  stoRef :: nat
  stoMap :: "nat \<Rightarrow> Buffer option"

record EventDesc =
  payload :: Buffer
  topics :: "nat list"

text \<open>
  \<open>StepVMState\<close> and \<open>StepState\<close>; the fields \<open>address\<close> and \<open>code\<close> of the source are
  \<open>stAddress\<close> and \<open>stCode\<close> here, the frames keep those names.
\<close>

record StepVMState =
  evmStack :: "Buffer list"
  memory :: Memory
  storage :: Storage
  op :: EVMOpInfo
  pc :: nat
  gasCost :: nat
  dynamicGasCost :: nat
  gas :: nat
  depth :: nat
  stAddress :: Address
  codeAddress :: Address

record StepState = StepVMState +
  stCode :: Buffer
  codeMdHash :: "HexString option"
  stack :: DbgStack
  src :: "DecodedBytecodeSourceMapEntry option"
  astNode :: "ASTNode option"
  emittedEvent :: "EventDesc option"
  contractInfo :: "ContractInfo option"

text \<open>
  Modelled from the spec: \<open>padStart\<close> and \<open>ImmMap.fromEntries\<close> of the package index are
  not under src/; values are "left-padded 32-byte buffers", the storage a "persistent map
  from 256-bit word key to 32-byte value", a later entry replacing an earlier one.
\<close>

definition padStart :: "Buffer \<Rightarrow> nat \<Rightarrow> byte \<Rightarrow> Buffer" where
  "padStart b n filler = replicate (n - length b) filler @ b"

definition ImmMap_fromEntries :: "(nat \<times> Buffer) list \<Rightarrow> (nat \<Rightarrow> Buffer option)" where
  "ImmMap_fromEntries es = foldl (\<lambda>m (k, v). m(k \<mapsto> v)) Map.empty es"

definition getStorage :: "Env \<Rightarrow> StateManager \<Rightarrow> Address \<Rightarrow> nat \<Rightarrow> Storage" where
  "getStorage env manager addr fresh =
     (let rawStorage = dumpStorage manager addr;
          storageEntries =
            map (\<lambda>(keyStr, valStr).
                   (hexToBigInt env keyStr, padStart (rlp_decode env (hexToBuffer env valStr)) 32 0))
                rawStorage
      in \<lparr>stoRef = fresh, stoMap = ImmMap_fromEntries storageEntries\<rparr>)"

subsection \<open>Frame builders\<close>

definition makeCreationFrame :: "Env \<Rightarrow> HexString \<Rightarrow> Buffer \<Rightarrow> nat \<Rightarrow> CreationFrame" where
  "makeCreationFrame env sndr data step =
     (let cInfo = getContractFromCreationBytecode env data;
          calleeNode = (case cInfo of
                          None \<Rightarrow> None
                        | Some ci \<Rightarrow> (case ast ci of None \<Rightarrow> None | Some c \<Rightarrow> vConstructor c))
      in \<lparr>callee = calleeNode, arguments = None, startStep = step,
          sender = sndr, msgData = data, address = ZERO_ADDRESS, info = cInfo,
          creationCode = data\<rparr>)"

text \<open>
  \<open>makeCallFrame\<close>; \<open>resolveCallee\<close> is its search for the callee among the functions
  and the public state variables of the contract, \<open>matchingGetter\<close> the filter of the
  getters (a throw of \<open>getterCanonicalSignatureHash\<close> is caught and counts as no match).
\<close>

definition matchingGetter :: "ABIEncoderVersion \<Rightarrow> UnprefixedHexString \<Rightarrow> VariableDeclaration \<Rightarrow> bool" where
  "matchingGetter abiVersion selector vDef =
     (visibilityPublic vDef \<and> getterCanonicalSignatureHash vDef abiVersion = Some selector)"

definition resolveCallee :: "ContractDefinition \<Rightarrow> ABIEncoderVersion \<Rightarrow> UnprefixedHexString \<Rightarrow> ASTNode option" where
  "resolveCallee contract abiVersion selector =
     (let matchingFuns = filter (\<lambda>fn. getFunctionSelector fn = selector) (vFunctions contract)
      in if length matchingFuns = 1 then Some (FunDef (matchingFuns ! 0))
         else (let matchingGetters = filter (matchingGetter abiVersion selector) (vStateVariables contract)
               in if length matchingGetters = 1 then Some (VarDecl (matchingGetters ! 0)) else None))"

definition makeCallFrame ::
  "Env \<Rightarrow> HexString \<Rightarrow> Address \<Rightarrow> Buffer \<Rightarrow> Buffer \<Rightarrow> HexString option \<Rightarrow> nat \<Rightarrow> CallFrame" where
  "makeCallFrame env sndr rcvr data receiverCode codeHash step =
     (let cInfo = (case codeHash of None \<Rightarrow> None | Some h \<Rightarrow> getContractFromMDHash env h);
          selector = toHex (slice data 0 4);
          calleeNode = (case cInfo of
                          None \<Rightarrow> None
                        | Some ci \<Rightarrow>
                            (case ast ci of
                               None \<Rightarrow> None
                             | Some contract \<Rightarrow> resolveCallee contract (abiEncoderVersion ci) selector));
          args = (case (cInfo, calleeNode) of
                    (Some ci, Some c) \<Rightarrow> decodeMsgData env c data CallData (abiEncoderVersion ci)
                  | _ \<Rightarrow> None)
      in \<lparr>callee = calleeNode, arguments = args, startStep = step,
          sender = sndr, msgData = data, address = rcvr, info = cInfo,
          receiver = Address_toString rcvr, code = receiverCode\<rparr>)"

subsection \<open>Source locations\<close>

definition decodeSourceLoc ::
  "nat \<Rightarrow> ExternalFrame \<Rightarrow> error + (DecodedBytecodeSourceMapEntry option \<times> ASTNode option)" where
  "decodeSourceLoc instrOffset ctx =
     (case ext_info ctx of
        None \<Rightarrow> Inr (None, None)
      | Some ci \<Rightarrow>
          (let bytecodeInfo = (if kind (External ctx) = Creation then bytecode ci else deployedBytecode ci)
           in case getOffsetSrc instrOffset bytecodeInfo of
                Inl e \<Rightarrow> Inl e
              | Inr s \<Rightarrow> Inr (Some s, srcMap ci (start s, len s, sourceIndex s))))"


subsection \<open>The stack reconciler\<close>

definition bindE :: "error + 'a \<Rightarrow> ('a \<Rightarrow> error + 'b) \<Rightarrow> error + 'b" where
  "bindE m f = (case m of Inl e \<Rightarrow> Inl e | Inr x \<Rightarrow> f x)"

text \<open>
  \<open>arr[i]\<close> on a JavaScript array is \<open>undefined\<close> out of range, and reading a buffer out
  of \<open>undefined\<close> (\<open>bigEndianBufToNumber\<close>, \<open>wordToAddress\<close>) throws.
\<close>

definition wordAt :: "Buffer list \<Rightarrow> int \<Rightarrow> error + Buffer" where
  "wordAt stk i = (if 0 \<le> i \<and> i < int (length stk) then Inr (stk ! nat i) else Inl TypeError)"

definition numberAt :: "Buffer list \<Rightarrow> int \<Rightarrow> error + nat" where
  "numberAt stk i = bindE (wordAt stk i) (\<lambda>w. Inr (bigEndianBufToNumber w))"

text \<open>
  The loop \<open>while (nFramesPopped > 0 && stack.length > 0)\<close> of the depth decrease:
  every frame on top is popped, only a Call or Creation frame counts.
\<close>

function popFrames :: "nat \<Rightarrow> DbgStack \<Rightarrow> DbgStack" where
  "popFrames nFramesPopped stk =
     (if nFramesPopped > 0 \<and> length stk > 0
      then (let topFrame = last stk;
                nFramesPopped' = (if kind topFrame = Creation \<or> kind topFrame = Call
                                  then nFramesPopped - 1 else nFramesPopped)
            in popFrames nFramesPopped' (butlast stk))
      else stk)"
  by pat_completeness auto
termination
  by (relation "measure (\<lambda>(n, stk). length stk)") auto

declare popFrames.simps [simp del]

text \<open>
  The arguments of an internal call: \<open>decodeFunArgs(ast, state.evmStack)\<close> when
  \<open>ast instanceof FunctionDefinition || (ast instanceof VariableDeclaration &&
  ast.stateVariable)\<close>, and \<open>undefined\<close> otherwise.
\<close>

definition internalCallArgs :: "ASTNode option \<Rightarrow> Buffer list \<Rightarrow> error + Arguments option" where
  "internalCallArgs node stk =
     (case node of
        Some (FunDef f) \<Rightarrow>
          bindE (decodeFunArgs (FunDef f) stk)
            (\<lambda>r. Inr (map_option (map (\<lambda>(n, v). (n, Some v))) r))
      | Some (VarDecl v) \<Rightarrow>
          if stateVariable v
          then bindE (decodeFunArgs (VarDecl v) stk)
                 (\<lambda>r. Inr (map_option (map (\<lambda>(n, v). (n, Some v))) r))
          else Inr None
      | _ \<Rightarrow> Inr None)"

text \<open>
  \<open>adjustStackFrame\<close>, with its two cases written as functions of their own:
  \<open>depthIncrease\<close> is the branch \<open>state.depth > lastStep.depth\<close> of case 1, and
  \<open>sameDepth\<close> is case 2. \<open>trace[trace.length - 1]\<close> and \<open>stack[stack.length - 1]\<close> are
  read where the list is not empty, as \<open>last\<close>.
\<close>

definition depthIncrease ::
  "Env \<Rightarrow> DbgStack \<Rightarrow> ExternalFrame \<Rightarrow> StepState \<Rightarrow> nat \<Rightarrow> Buffer \<Rightarrow> HexString option
   \<Rightarrow> error + DbgStack" where
  "depthIncrease env stk lastExtFrame lastStep traceLen cd codeHash =
     (let lastOp = op lastStep;
          lastStackTop = int (length (evmStack lastStep)) - 1
      in
      if \<not> increasesDepth lastOp then Inl (UnexpectedDepthIncrease (mnemonic lastOp))
      else if createsContract lastOp then
        bindE (numberAt (evmStack lastStep) (lastStackTop - 1)) (\<lambda>off.
        bindE (numberAt (evmStack lastStep) (lastStackTop - 2)) (\<lambda>size.
          let creationBytecode =
                slice (memBytes (memory lastStep)) (int off) (int off + int size);
              curFrame = makeCreationFrame env
                           (Address_toString (ext_address lastExtFrame))
                           creationBytecode traceLen
          in Inr (stk @ [External (CreationF curFrame)])))
      else
        (let argStackOff =
               (if opcode lastOp = OPCODES_CALL \<or> opcode lastOp = OPCODES_CALLCODE
                then 3 else 2);
             argSizeStackOff = argStackOff + 1
         in
         bindE (numberAt (evmStack lastStep) (lastStackTop - argStackOff)) (\<lambda>argOff.
         bindE (numberAt (evmStack lastStep) (lastStackTop - argSizeStackOff)) (\<lambda>argSize.
         bindE (wordAt (evmStack lastStep) (lastStackTop - 1)) (\<lambda>w.
           let rcvr = wordToAddress w;
               data = slice (memBytes (memory lastStep)) (int argOff)
                        (int argOff + int argSize);
               newFrame = makeCallFrame env
                            (Address_toString (ext_address lastExtFrame))
                            rcvr data cd codeHash traceLen
           in Inr (stk @ [External (CallF newFrame)]))))))"

definition sameDepth ::
  "DbgStack \<Rightarrow> ExternalFrame \<Rightarrow> StepVMState \<Rightarrow> StepState \<Rightarrow> nat \<Rightarrow> error + DbgStack" where
  "sameDepth stk lastExtFrame state lastStep traceLen =
     bindE (lastExternalFrame stk) (\<lambda>curExtFrame.
     bindE (decodeSourceLoc (pc state) curExtFrame) (\<lambda>(s, node).
       case s of
         None \<Rightarrow> Inr stk
       | Some sl \<Rightarrow>
           if mnemonic (op state) = ''JUMPDEST'' \<and> mnemonic (op lastStep) = ''JUMP'' \<and>
              (case src lastStep of None \<Rightarrow> False | Some ls \<Rightarrow> jump ls = ''i'')
           then
             bindE (internalCallArgs node (evmStack state)) (\<lambda>args.
               let newFrame = \<lparr>callee = node, arguments = args, startStep = traceLen,
                                nearestExtFrame = lastExtFrame, offset = pc state\<rparr>
               in Inr (stk @ [Internal newFrame]))
           else if mnemonic (op state) = ''JUMP'' \<and> jump sl = ''o'' then
             (let topFrame = last stk
              in if kind topFrame = InternalCall then Inr (butlast stk)
                 else Inl MismatchedInternalReturn)
           else Inr stk))"

definition adjustStackFrame ::
  "Env \<Rightarrow> DbgStack \<Rightarrow> StepVMState \<Rightarrow> StepState list \<Rightarrow> Buffer \<Rightarrow> HexString option
   \<Rightarrow> error + DbgStack" where
  "adjustStackFrame env stk state trace cd codeHash =
     bindE (lastExternalFrame stk) (\<lambda>lastExtFrame.
       if length trace = 0 then Inr stk
       else
         let lastStep = last trace
         in
         if depth lastStep \<noteq> depth state then
           (if depth state > depth lastStep
            then depthIncrease env stk lastExtFrame lastStep (length trace) cd codeHash
            else Inr (popFrames (depth lastStep - depth state) stk))
         else sameDepth stk lastExtFrame state lastStep (length trace))"

subsection \<open>Code of a step\<close>

definition getCodeAndMdHash ::
  "Env \<Rightarrow> StateManager \<Rightarrow> StepVMState \<Rightarrow> StepState list \<Rightarrow> error + (Buffer \<times> HexString option)" where
  "getCodeAndMdHash env vmStateManager step trace =
     (let lastStep = (if length trace > 0 then Some (last trace) else None)
      in case lastStep of
           None \<Rightarrow>
             (let cd = getContractCode vmStateManager (codeAddress step)
              in Inr (cd, getCodeHash env cd))
         | Some ls \<Rightarrow>
             if createsContract (op ls) then
               (let lastStackTop = int (length (evmStack ls)) - 1 in
                bindE (numberAt (evmStack ls) (lastStackTop - 1)) (\<lambda>off.
                bindE (numberAt (evmStack ls) (lastStackTop - 2)) (\<lambda>size.
                  let cd = slice (memBytes (memory ls)) (int off) (int off + int size)
                  in Inr (cd, getCreationCodeHash env cd))))
             else if codeAddress ls \<noteq> codeAddress step then
               (let cd = getContractCode vmStateManager (codeAddress step)
                in Inr (cd, getCodeHash env cd))
             else Inr (stCode ls, codeMdHash ls))"

subsection \<open>One step of the trace\<close>

text \<open>
  \<open>(name[3] as any) - ("0" as any)\<close>: the number of a digit, \<open>0\<close> for white space, and
  \<open>NaN\<close> (here \<open>None\<close>) for any other character and for a name of three characters.
  The white space of JavaScript's \<open>ToNumber\<close> among the characters below 256 is
  U+0009 to U+000D, U+0020 and U+00A0. A \<open>NaN\<close> start of \<open>Array.slice\<close> is \<open>0\<close>.
\<close>

definition charToNumber :: "char \<Rightarrow> int option" where
  "charToNumber c =
     (if c \<in> set ''0123456789'' then Some (int (of_char c) - 48)
      else if c \<in> set [CHR '' '', CHR 0x09, CHR 0x0A, CHR 0x0B, CHR 0x0C, CHR 0x0D, CHR 0xA0]
      then Some 0
      else None)"

text \<open>
  \<open>emittedEventOf\<close> is the block \<open>if (step.opcode.name.startsWith("LOG"))\<close> of
  \<open>processRawTraceStep\<close>.
\<close>

definition nTopicsOf :: "string \<Rightarrow> int option" where
  "nTopicsOf nm = (if 3 < length nm then charToNumber (nm ! 3) else None)"

definition emittedEventOf :: "string \<Rightarrow> Buffer list \<Rightarrow> Memory \<Rightarrow> error + EventDesc option" where
  "emittedEventOf nm stk mem =
     (if take 3 nm = ''LOG'' then
        bindE (numberAt stk (int (length stk) - 1)) (\<lambda>off.
        bindE (numberAt stk (int (length stk) - 2)) (\<lambda>size.
          let nTopics = nTopicsOf nm;
              pl = slice (memBytes mem) (int off) (int off + int size);
              from = (case nTopics of None \<Rightarrow> 0 | Some n \<Rightarrow> int (length stk) - 2 - n)
          in Inr (Some \<lparr>payload = pl,
                         topics = map bigEndianBufToBigint
                                    (rev (slice stk from (int (length stk) - 2)))\<rparr>)))
      else Inr None)"

text \<open>
  \<open>processRawTraceStep\<close> mutates the frame stack and allocates objects: the model takes
  the stack and the next free reference and returns them with the step.
  \<open>translateStep\<close> is its first part ("First translate the basic VM state"):
  \<open>Buffer.from(step.memory)\<close> and \<open>getStorage\<close> make new objects, the other branches
  hand on the objects of the previous step.
\<close>

definition translateStep ::
  "Env \<Rightarrow> InterpreterStep \<Rightarrow> StepState list \<Rightarrow> nat \<Rightarrow> StepVMState \<times> nat" where
  "translateStep env step trace fresh =
     (let stackWords = map toArray_be32 (rawStack step);
          lastStep = (if length trace > 0 then Some (last trace) else None);
          (mem, fresh1) =
            (case lastStep of
               None \<Rightarrow> (\<lparr>memRef = fresh, memBytes = rawMemory step\<rparr>, fresh + 1)
             | Some ls \<Rightarrow>
                 if changesMemory env (op ls)
                 then (\<lparr>memRef = fresh, memBytes = rawMemory step\<rparr>, fresh + 1)
                 else (memory ls, fresh));
          opInfo = getOpInfo env (rawOpName step);
          (sto, fresh2) =
            (case lastStep of
               None \<Rightarrow> (getStorage env (rawStateManager step) (rawAddress step) fresh1, fresh1 + 1)
             | Some ls \<Rightarrow>
                 if opcode (op ls) = OPCODES_SSTORE
                 then (getStorage env (rawStateManager step) (rawAddress step) fresh1, fresh1 + 1)
                 else (storage ls, fresh1));
          cost = rawFee step;
          dynamicCost = (case rawDynamicFee step of None \<Rightarrow> cost | Some d \<Rightarrow> d)
      in (\<lparr>evmStack = stackWords, memory = mem, storage = sto, op = opInfo,
            pc = rawPc step, gasCost = cost, dynamicGasCost = dynamicCost,
            gas = rawGasLeft step, depth = rawDepth step + 1,
            stAddress = rawAddress step, codeAddress = rawCodeAddress step\<rparr>,
          fresh2))"

definition processRawTraceStep ::
  "Env \<Rightarrow> StateManager \<Rightarrow> InterpreterStep \<Rightarrow> StepState list \<Rightarrow> DbgStack \<Rightarrow> nat
   \<Rightarrow> error + (StepState \<times> DbgStack \<times> nat)" where
  "processRawTraceStep env vmStateManager step trace stk fresh =
     (let (vmState, fresh') = translateStep env step trace fresh
      in
      bindE (getCodeAndMdHash env vmStateManager vmState trace) (\<lambda>(cd, cdHash).
      bindE (adjustStackFrame env stk vmState trace cd cdHash) (\<lambda>stk'.
      bindE (lastExternalFrame stk') (\<lambda>curExtFrame.
        let (s, node) = (case decodeSourceLoc (rawPc step) curExtFrame of
                           Inl e \<Rightarrow> (None, None)
                         | Inr r \<Rightarrow> r)
        in
        bindE (emittedEventOf (rawOpName step) (evmStack vmState) (memory vmState)) (\<lambda>ev.
          Inr (StepVMState.extend vmState
                 (StepState.fields cd cdHash stk' s node ev (ext_info curExtFrame)),
               stk', fresh'))))))"

subsection \<open>The trace driver\<close>

record Transaction =
  txSender :: Address
  txTo :: "Address option"
  txData :: Buffer

text \<open>
  The first part of \<open>debugTx\<close>, up to \<open>stack.push(curFrame)\<close>. On the Call branch the
  recipient is present (\<open>tx.to as Address\<close>): a missing one has made \<open>isCreation\<close> true.
\<close>

definition initialFrame :: "Env \<Rightarrow> StateManager \<Rightarrow> Transaction \<Rightarrow> Frame" where
  "initialFrame env vmStateManager tx =
     (let sndr = Address_toString (txSender tx);
          rcvr = (case txTo tx of None \<Rightarrow> ZERO_ADDRESS_STRING | Some a \<Rightarrow> Address_toString a);
          isCreation = (rcvr = ZERO_ADDRESS_STRING)
      in if isCreation then External (CreationF (makeCreationFrame env sndr (txData tx) 0))
         else (let cd = getContractCode vmStateManager (the (txTo tx));
                   codeHash = getCodeHash env cd
               in External (CallF (makeCallFrame env sndr (the (txTo tx)) (txData tx) cd codeHash 0))))"

text \<open>
  The step handler of \<open>debugTx\<close>, run on the step events that the VM emits for the
  transaction, in their order: each step is processed and pushed on the trace.
\<close>

fun runSteps ::
  "Env \<Rightarrow> StateManager \<Rightarrow> InterpreterStep list \<Rightarrow> StepState list \<Rightarrow> DbgStack \<Rightarrow> nat
   \<Rightarrow> error + (StepState list \<times> DbgStack \<times> nat)" where
  "runSteps env vmStateManager [] trace stk fresh = Inr (trace, stk, fresh)"
| "runSteps env vmStateManager (step # rest) trace stk fresh =
     (case processRawTraceStep env vmStateManager step trace stk fresh of
        Inl e \<Rightarrow> Inl e
      | Inr (curStep, stk', fresh') \<Rightarrow>
          runSteps env vmStateManager rest (trace @ [curStep]) stk' fresh')"

definition debugTx ::
  "Env \<Rightarrow> StateManager \<Rightarrow> Transaction \<Rightarrow> InterpreterStep list \<Rightarrow> error + StepState list" where
  "debugTx env vmStateManager tx vmSteps =
     (let curFrame = initialFrame env vmStateManager tx
      in case runSteps env vmStateManager vmSteps [] [curFrame] 0 of
           Inl e \<Rightarrow> Inl e
         | Inr (trace, stk, fresh) \<Rightarrow> Inr trace)"

subsection \<open>Counting external frames\<close>

definition isExternal :: "Frame \<Rightarrow> bool" where
  "isExternal f = (kind f = Creation \<or> kind f = Call)"

definition nExternal :: "DbgStack \<Rightarrow> nat" where
  "nExternal stk = length (filter isExternal stk)"

text \<open>The callees for which \<open>adjustStackFrame\<close> computes arguments on an internal call.\<close>

definition isFunctionOrStateVariable :: "ASTNode option \<Rightarrow> bool" where
  "isFunctionOrStateVariable node =
     (case node of
        Some (FunDef f) \<Rightarrow> True
      | Some (VarDecl v) \<Rightarrow> stateVariable v
      | _ \<Rightarrow> False)"

subsection \<open>Concrete inputs\<close>

definition ex_param :: "string \<Rightarrow> bool \<Rightarrow> VariableDeclaration" where
  "ex_param nm twoSlots =
     \<lparr>name = nm, stateVariable = False, visibilityPublic = False,
      toTypeNode = Some (TypeNode nm twoSlots), getterArgs = None,
      getterCanonicalSignatureHash = (\<lambda>_. None)\<rparr>"

definition ex_fun :: FunctionDefinition where
  "ex_fun = \<lparr>getFunctionSelector = ''a9059cbb'',
             vParameters = [ex_param ''data'' True, ex_param ''amount'' False]\<rparr>"

definition ex_srcAt :: BytecodeInfo where
  "ex_srcAt p =
     Some \<lparr>start = (if p = 20 then 100 else int p), len = 1, sourceIndex = 0,
           jump = (if p = 10 then ''i'' else if p = 40 then ''o'' else ''-'')\<rparr>"

definition ex_info :: ContractInfo where
  "ex_info =
     \<lparr>bytecode = ex_srcAt, deployedBytecode = ex_srcAt,
      ast = Some \<lparr>vFunctions = [ex_fun], vStateVariables = [], vConstructor = None\<rparr>,
      srcMap = (\<lambda>k. if k = (100, 1, 0) then Some (FunDef ex_fun) else None),
      abiEncoderVersion = V2\<rparr>"

definition ex_opInfo :: "string \<Rightarrow> EVMOpInfo" where
  "ex_opInfo nm =
     \<lparr>opcode = (if nm = ''CALL'' then OPCODES_CALL
                else if nm = ''DELEGATECALL'' then OPCODES_DELEGATECALL
                else if nm = ''CREATE'' then OPCODES_CREATE
                else if nm = ''SSTORE'' then OPCODES_SSTORE
                else if nm = ''MSTORE'' then 0x52
                else if nm = ''JUMP'' then 0x56
                else if nm = ''JUMPDEST'' then 0x5b
                else 0),
      mnemonic = nm\<rparr>"

definition ex_env :: Env where
  "ex_env =
     \<lparr>getContractFromMDHash = (\<lambda>h. if h = ''md'' then Some ex_info else None),
      getContractFromCreationBytecode = (\<lambda>_. None),
      getCodeHash = (\<lambda>c. if c = [0x5b] then Some ''md'' else None),
      getCreationCodeHash = (\<lambda>_. None),
      decodeMsgData = (\<lambda>_ _ _ _. None),
      getOpInfo = ex_opInfo,
      changesMemory = (\<lambda>o1. opcode o1 = 0x52),
      rlp_decode = (\<lambda>b. b),
      hexToBuffer = (\<lambda>_. []),
      hexToBigInt = (\<lambda>_. 0)\<rparr>"

definition ex_addr :: "byte \<Rightarrow> Address" where
  "ex_addr b = Address (replicate 19 0 @ [b])"

definition ex_word :: "byte \<Rightarrow> Buffer" where
  "ex_word b = replicate 31 0 @ [b]"

definition ex_callFrame :: "ContractInfo option \<Rightarrow> Frame" where
  "ex_callFrame ci =
     External (CallF \<lparr>callee = None, arguments = None, startStep = 0,
                      sender = Address_toString (ex_addr 1), msgData = [], address = ex_addr 2,
                      info = ci, receiver = Address_toString (ex_addr 2), code = [0x5b]\<rparr>)"

definition ex_internalFrame :: Frame where
  "ex_internalFrame =
     Internal \<lparr>callee = None, arguments = None, startStep = 1,
               nearestExtFrame = lastExternalFrame_of (ex_callFrame (Some ex_info)),
               offset = 20\<rparr>"

definition ex_memory :: Buffer where
  "ex_memory = [0xa9, 0x05, 0x9c, 0xbb, 0x01, 0x02, 0x03, 0x04]"

definition ex_STOP :: EVMOpInfo where "ex_STOP = \<lparr>opcode = 0x00, mnemonic = ''STOP''\<rparr>"
definition ex_JUMP :: EVMOpInfo where "ex_JUMP = \<lparr>opcode = 0x56, mnemonic = ''JUMP''\<rparr>"
definition ex_JUMPDEST :: EVMOpInfo where "ex_JUMPDEST = \<lparr>opcode = 0x5b, mnemonic = ''JUMPDEST''\<rparr>"
definition ex_CALL :: EVMOpInfo where "ex_CALL = \<lparr>opcode = OPCODES_CALL, mnemonic = ''CALL''\<rparr>"
definition ex_DELEGATECALL :: EVMOpInfo where
  "ex_DELEGATECALL = \<lparr>opcode = OPCODES_DELEGATECALL, mnemonic = ''DELEGATECALL''\<rparr>"

definition ex_state :: "EVMOpInfo \<Rightarrow> nat \<Rightarrow> nat \<Rightarrow> Buffer list \<Rightarrow> StepVMState" where
  "ex_state opI p d ws =
     \<lparr>evmStack = ws, memory = \<lparr>memRef = 0, memBytes = ex_memory\<rparr>,
      storage = \<lparr>stoRef = 1, stoMap = Map.empty\<rparr>, op = opI, pc = p,
      gasCost = 3, dynamicGasCost = 3, gas = 1000, depth = d,
      stAddress = ex_addr 2, codeAddress = ex_addr 2\<rparr>"

definition ex_step ::
  "EVMOpInfo \<Rightarrow> nat \<Rightarrow> nat \<Rightarrow> Buffer list \<Rightarrow> DbgStack \<Rightarrow> StepState" where
  "ex_step opI p d ws frames =
     \<lparr>evmStack = ws, memory = \<lparr>memRef = 0, memBytes = ex_memory\<rparr>,
      storage = \<lparr>stoRef = 1, stoMap = Map.empty\<rparr>, op = opI, pc = p,
      gasCost = 3, dynamicGasCost = 3, gas = 1000, depth = d,
      stAddress = ex_addr 2, codeAddress = ex_addr 2,
      stCode = [0x5b], codeMdHash = Some ''md'', stack = frames,
      src = (case lastExternalFrame frames of
               Inr f \<Rightarrow> (case ext_info f of Some ci \<Rightarrow> deployedBytecode ci p | None \<Rightarrow> None)
             | Inl e \<Rightarrow> None),
      astNode = None, emittedEvent = None,
      contractInfo = (case lastExternalFrame frames of Inr f \<Rightarrow> ext_info f | Inl e \<Rightarrow> None)\<rparr>"

definition ex_vm :: StateManager where
  "ex_vm = \<lparr>getContractCode = (\<lambda>a. if a = ex_addr 2 then [0x5b] else []),
            dumpStorage = (\<lambda>_. [])\<rparr>"

definition ex_raw :: "string \<Rightarrow> nat \<Rightarrow> nat \<Rightarrow> 256 word list \<Rightarrow> InterpreterStep" where
  "ex_raw nm p d ws =
     \<lparr>rawOpName = nm, rawFee = 3, rawDynamicFee = None, rawPc = p, rawDepth = d,
      rawGasLeft = 1000, rawAddress = ex_addr 3, rawCodeAddress = ex_addr 3,
      rawStack = ws, rawMemory = ex_memory, rawStateManager = ex_vm\<rparr>"

definition ex_rawAt ::
  "Address \<Rightarrow> string \<Rightarrow> nat \<Rightarrow> nat \<Rightarrow> 256 word list \<Rightarrow> InterpreterStep" where
  "ex_rawAt a nm p d ws =
     \<lparr>rawOpName = nm, rawFee = 3, rawDynamicFee = None, rawPc = p, rawDepth = d,
      rawGasLeft = 1000, rawAddress = a, rawCodeAddress = a,
      rawStack = ws, rawMemory = ex_memory, rawStateManager = ex_vm\<rparr>"

definition ex_tx :: "Address option \<Rightarrow> Transaction" where
  "ex_tx rcpt = \<lparr>txSender = ex_addr 1, txTo = rcpt, txData = [0xa9, 0x05, 0x9c, 0xbb]\<rparr>"

text \<open>What a run recorded: the event of a step, and the depth and external frames of each step.\<close>

definition stepEvent :: "error + (StepState \<times> DbgStack \<times> nat) \<Rightarrow> EventDesc option" where
  "stepEvent r = (case r of Inl e \<Rightarrow> None | Inr (s, stk, fresh) \<Rightarrow> emittedEvent s)"

definition traceDepths :: "error + StepState list \<Rightarrow> (nat \<times> nat) list option" where
  "traceDepths r =
     (case r of Inl e \<Rightarrow> None | Inr trace \<Rightarrow> Some (map (\<lambda>s. (depth s, nExternal (stack s))) trace))"

definition traceStacks :: "error + StepState list \<Rightarrow> (nat \<times> FrameKind list) list option" where
  "traceStacks r =
     (case r of Inl e \<Rightarrow> None | Inr trace \<Rightarrow> Some (map (\<lambda>s. (depth s, map kind (stack s))) trace))"

subsection \<open>Depths reported by the VM\<close>

text \<open>
  A sequence of VM depths in which the first step is at depth 0 and no step is more than
  one level deeper than the step before it.
\<close>

fun risesByOne :: "nat list \<Rightarrow> bool" where
  "risesByOne (d # e # rest) = (e \<le> d + 1 \<and> risesByOne (e # rest))"
| "risesByOne _ = True"

definition vmDepthsWellFormed :: "nat list \<Rightarrow> bool" where
  "vmDepthsWellFormed ds = ((case ds of [] \<Rightarrow> True | d # rest \<Rightarrow> d = 0) \<and> risesByOne ds)"

subsection \<open>Sharing of memory and storage between consecutive steps\<close>

text \<open>
  What \<open>cur\<close>, recorded for the raw step \<open>raw\<close> after the steps \<open>prevs\<close>, holds as memory
  and storage: a new object (a reference that no earlier step holds) with the contents of
  the raw buffer, respectively of the state manager's storage, or the very object of the
  step before.
\<close>

definition stepShares :: "Env \<Rightarrow> StepState list \<Rightarrow> InterpreterStep \<Rightarrow> StepState \<Rightarrow> bool" where
  "stepShares env prevs raw cur =
     ((if changesMemory env (op (last prevs))
       then memBytes (memory cur) = rawMemory raw
            \<and> memRef (memory cur) \<notin> set (map (\<lambda>t. memRef (memory t)) prevs)
       else memory cur = memory (last prevs))
    \<and> (if opcode (op (last prevs)) = OPCODES_SSTORE
       then stoMap (storage cur)
              = stoMap (getStorage env (rawStateManager raw) (rawAddress raw) 0)
            \<and> stoRef (storage cur) \<notin> set (map (\<lambda>t. stoRef (storage t)) prevs)
       else storage cur = storage (last prevs)))"

definition traceOpcodes :: "error + StepState list \<Rightarrow> nat list option" where
  "traceOpcodes r =
     (case r of Inl e \<Rightarrow> None | Inr trace \<Rightarrow> Some (map (\<lambda>s. opcode (op s)) trace))"

section \<open>Argument locations\<close>

lemma accOffset_end: "accOffset formals (length formals) = -1"
  by (simp add: accOffset_def)

lemma accOffset_step:
  "i < length formals \<Longrightarrow> accOffset formals i = slots (formals ! i) + accOffset formals (Suc i)"
  by (simp add: accOffset_def flip: Cons_nth_drop_Suc)

lemma decodeFunArgs_loop_closed:
  "i \<le> length formals \<Longrightarrow> off = accOffset formals i \<Longrightarrow>
   res = map (mkArg formals) [i..<length formals] \<Longrightarrow>
   decodeFunArgs_loop formals i off stackLen res =
     (if \<exists>j<i. int stackLen < accOffset formals j then Inl StackUnderflow
      else Inr (map (mkArg formals) [0..<length formals]))"
proof (induction i arbitrary: off res)
  case 0
  then show ?case by simp
next
  case (Suc i)
  have il: "i < length formals" using Suc.prems by simp
  have st: "accOffset formals i = slots (formals ! i) + off"
    using accOffset_step[OF il] Suc.prems by simp
  obtain nm ty where f: "formals ! i = (nm, ty)" by (cases "formals ! i")
  have off': "off + (if isCalldataType2Slots ty then 2 else 1) = accOffset formals i"
    using st f by (simp add: slots_def)
  show ?case
  proof (cases "accOffset formals i \<le> int stackLen")
    case True
    have r: "(nm, \<lparr>vtype = ty, originalType = None, loc = StackLocation (accOffset formals i)\<rparr>) # res
             = map (mkArg formals) [i..<length formals]"
      using Suc.prems(3) il f by (simp add: upt_conv_Cons mkArg_def)
    have ex: "(\<exists>j<Suc i. int stackLen < accOffset formals j) = (\<exists>j<i. int stackLen < accOffset formals j)"
      using True by (auto simp: less_Suc_eq)
    show ?thesis
      using Suc.IH[of "accOffset formals i"
          "(nm, \<lparr>vtype = ty, originalType = None, loc = StackLocation (accOffset formals i)\<rparr>) # res"]
        il r True f off' ex
      by (simp add: Let_def)
  next
    case False
    then have "\<exists>j<Suc i. int stackLen < accOffset formals j" by auto
    then show ?thesis using False f off' by (simp add: Let_def)
  qed
qed

text \<open>
  C9. \<open>decodeFunArgs\<close> gives formal \<open>i\<close> the stack location whose offset from the top is
  \<open>-1\<close> plus the slots of the formals from \<open>i\<close> to the last (two for a calldata
  pointer-and-length type, one otherwise), and it fails with the stack-underflow
  assertion exactly when the stack is shallower than one of these accumulated offsets.
\<close>

theorem decodeFunArgs_locations:
  assumes "formalsOf calleeNode = Some formals"
  shows "decodeFunArgs calleeNode stk =
     (if \<exists>i<length formals. int (length stk) < accOffset formals i then Inl StackUnderflow
      else Inr (Some (map (\<lambda>i. (fst (formals ! i),
                 \<lparr>vtype = snd (formals ! i), originalType = None,
                    loc = StackLocation (accOffset formals i)\<rparr>))
               [0..<length formals])))"
  using assms decodeFunArgs_loop_closed[of "length formals" formals "-1" "[]" "length stk"]
  by (simp add: decodeFunArgs_def accOffset_end mkArg_def[abs_def])

text \<open>
  An instance: a function with a two-slot calldata parameter and a one-slot parameter, on a
  stack of three words and on a stack of one word.
\<close>

theorem decodeFunArgs_locations_witness:
  "formalsOf (FunDef ex_fun) =
     Some [(''data'', TypeNode ''data'' True), (''amount'', TypeNode ''amount'' False)]
   \<and> decodeFunArgs (FunDef ex_fun) [[1], [2], [3]] =
       Inr (Some [(''data'', \<lparr>vtype = TypeNode ''data'' True, originalType = None,
                               loc = StackLocation 2\<rparr>),
                  (''amount'', \<lparr>vtype = TypeNode ''amount'' False, originalType = None,
                                 loc = StackLocation 0\<rparr>)])
   \<and> decodeFunArgs (FunDef ex_fun) [[1]] = Inl StackUnderflow"
proof -
  have h: "formalsOf (FunDef ex_fun) =
             Some [(''data'', TypeNode ''data'' True), (''amount'', TypeNode ''amount'' False)]"
    by (simp add: ex_fun_def ex_param_def)
  show ?thesis
    using h decodeFunArgs_locations[OF h, of "[[1], [2], [3]]"]
      decodeFunArgs_locations[OF h, of "[[1]]"]
    by (simp add: accOffset_def slots_def isCalldataType2Slots_def Ex_less_Suc)
qed

section \<open>The stack reconciler\<close>

lemma popFrames_0: "popFrames 0 stk = stk"
  by (subst popFrames.simps) simp

lemma popFrames_Nil: "popFrames n [] = []"
  by (subst popFrames.simps) simp

lemma popFrames_snoc_ext:
  "0 < n \<Longrightarrow> isExternal f \<Longrightarrow> popFrames n (stk @ [f]) = popFrames (n - 1) stk"
  by (subst popFrames.simps) (simp add: isExternal_def Let_def)

lemma popFrames_snoc_int:
  "0 < n \<Longrightarrow> \<not> isExternal f \<Longrightarrow> popFrames n (stk @ [f]) = popFrames n stk"
  by (subst popFrames.simps) (simp add: isExternal_def Let_def)

lemma nExternal_snoc: "nExternal (stk @ [f]) = nExternal stk + (if isExternal f then 1 else 0)"
  by (simp add: nExternal_def)

lemma nExternal_Nil: "nExternal [] = 0"
  by (simp add: nExternal_def)

lemma lastExternalFrame_nonempty:
  "stk \<noteq> [] \<Longrightarrow> lastExternalFrame stk = Inr (lastExternalFrame_of (last stk))"
  by (simp add: lastExternalFrame_def)

lemma lastExternalFrame_Inr:
  "lastExternalFrame stk = Inr f \<Longrightarrow> stk \<noteq> [] \<and> f = lastExternalFrame_of (last stk)"
  by (auto simp: lastExternalFrame_def split: if_splits)

lemma adjust_increase:
  "trace \<noteq> [] \<Longrightarrow> stk \<noteq> [] \<Longrightarrow> depth (last trace) < depth state \<Longrightarrow>
   adjustStackFrame env stk state trace cd codeHash =
     depthIncrease env stk (lastExternalFrame_of (last stk)) (last trace) (length trace) cd codeHash"
  by (simp add: adjustStackFrame_def bindE_def lastExternalFrame_def Let_def)

lemma adjust_decrease:
  "trace \<noteq> [] \<Longrightarrow> stk \<noteq> [] \<Longrightarrow> depth state < depth (last trace) \<Longrightarrow>
   adjustStackFrame env stk state trace cd codeHash =
     Inr (popFrames (depth (last trace) - depth state) stk)"
  by (simp add: adjustStackFrame_def bindE_def lastExternalFrame_def Let_def)

lemma adjust_same:
  "trace \<noteq> [] \<Longrightarrow> stk \<noteq> [] \<Longrightarrow> depth (last trace) = depth state \<Longrightarrow>
   adjustStackFrame env stk state trace cd codeHash =
     sameDepth stk (lastExternalFrame_of (last stk)) state (last trace) (length trace)"
  by (simp add: adjustStackFrame_def bindE_def lastExternalFrame_def Let_def)

lemma wordAt_Inl: "wordAt stk i = Inl e \<Longrightarrow> e = TypeError"
  by (simp add: wordAt_def split: if_splits)

lemma numberAt_Inl: "numberAt stk i = Inl e \<Longrightarrow> e = TypeError"
  by (auto simp: numberAt_def bindE_def wordAt_def split: if_splits)

lemma depthIncrease_assert:
  "(depthIncrease env stk f ls n cd codeHash = Inl (UnexpectedDepthIncrease m)) =
   (\<not> increasesDepth (op ls) \<and> m = mnemonic (op ls))"
  unfolding depthIncrease_def Let_def bindE_def
  by (auto split: sum.splits dest: numberAt_Inl wordAt_Inl)

lemma depthIncrease_Inr:
  "depthIncrease env stk f ls n cd h = Inr stk' \<Longrightarrow> \<exists>e. stk' = stk @ [External e]"
  unfolding depthIncrease_def Let_def bindE_def
  by (auto split: sum.splits if_splits)

lemma popFrames_split:
  "\<exists>popped. popFrames n stk @ popped = stk
      \<and> nExternal popped = min n (nExternal stk)
      \<and> (nExternal stk < n \<longrightarrow> popFrames n stk = [])
      \<and> (0 < n \<and> n \<le> nExternal stk \<longrightarrow> popped \<noteq> [] \<and> isExternal (hd popped))
      \<and> (n = 0 \<longrightarrow> popped = [])"
proof (induction stk arbitrary: n rule: rev_induct)
  case Nil
  show ?case
    by (rule exI[of _ "[]"]) (auto simp: popFrames_Nil nExternal_Nil)
next
  case (snoc x xs)
  show ?case
  proof (cases "n = 0")
    case True
    then show ?thesis
      by (intro exI[of _ "[]"]) (simp add: popFrames_0 nExternal_Nil)
  next
    case False
    then have pos: "0 < n" by simp
    show ?thesis
    proof (cases "isExternal x")
      case True
      from snoc.IH[of "n - 1"] obtain p where
        p: "popFrames (n - 1) xs @ p = xs" "nExternal p = min (n - 1) (nExternal xs)"
           "nExternal xs < n - 1 \<longrightarrow> popFrames (n - 1) xs = []"
           "0 < n - 1 \<and> n - 1 \<le> nExternal xs \<longrightarrow> p \<noteq> [] \<and> isExternal (hd p)"
           "n - 1 = 0 \<longrightarrow> p = []"
        by (elim exE conjE)
      have eq: "popFrames n (xs @ [x]) = popFrames (n - 1) xs"
        using pos True by (rule popFrames_snoc_ext)
      have a: "popFrames n (xs @ [x]) @ (p @ [x]) = xs @ [x]"
        using p(1) eq by simp
      have b: "nExternal (p @ [x]) = min n (nExternal (xs @ [x]))"
        using p(2) True pos by (auto simp: nExternal_snoc min_def)
      have c: "nExternal (xs @ [x]) < n \<longrightarrow> popFrames n (xs @ [x]) = []"
        using p(3) True eq by (simp add: nExternal_snoc)
      have d: "0 < n \<and> n \<le> nExternal (xs @ [x]) \<longrightarrow> p @ [x] \<noteq> [] \<and> isExternal (hd (p @ [x]))"
      proof (cases "p = []")
        case True
        then show ?thesis using \<open>isExternal x\<close> by simp
      next
        case False
        then have "0 < n - 1" using p(5) by blast
        then have "n - 1 \<le> nExternal xs \<longrightarrow> isExternal (hd p)" using p(4) by blast
        then show ?thesis using False \<open>isExternal x\<close> by (auto simp: nExternal_snoc)
      qed
      have e: "n = 0 \<longrightarrow> p @ [x] = []" using pos by simp
      from a b c d e show ?thesis
        by (intro exI[of _ "p @ [x]"] conjI) assumption+
    next
      case False
      from snoc.IH[of n] obtain p where
        p: "popFrames n xs @ p = xs" "nExternal p = min n (nExternal xs)"
           "nExternal xs < n \<longrightarrow> popFrames n xs = []"
           "0 < n \<and> n \<le> nExternal xs \<longrightarrow> p \<noteq> [] \<and> isExternal (hd p)"
        by (elim exE conjE)
      have eq: "popFrames n (xs @ [x]) = popFrames n xs"
        using pos False by (rule popFrames_snoc_int)
      have a: "popFrames n (xs @ [x]) @ (p @ [x]) = xs @ [x]"
        using p(1) eq by simp
      have b: "nExternal (p @ [x]) = min n (nExternal (xs @ [x]))"
        using p(2) False by (simp add: nExternal_snoc)
      have c: "nExternal (xs @ [x]) < n \<longrightarrow> popFrames n (xs @ [x]) = []"
        using p(3) False eq by (simp add: nExternal_snoc)
      have d: "0 < n \<and> n \<le> nExternal (xs @ [x]) \<longrightarrow> p @ [x] \<noteq> [] \<and> isExternal (hd (p @ [x]))"
        using p(4) False by (simp add: nExternal_snoc)
      have e: "n = 0 \<longrightarrow> p @ [x] = []" using pos by simp
      from a b c d e show ?thesis
        by (intro exI[of _ "p @ [x]"] conjI) assumption+
    qed
  qed
qed

text \<open>
  The depth decrease in \<open>adjustStackFrame\<close> alone, on a frame stack of any content: the
  frames popped hold as many external frames as the depth went down when the stack has
  them, and the popping stops right after the last of these.
\<close>

lemma adjustStackFrame_decrease:
  assumes "trace \<noteq> []" and "stk \<noteq> []" and "depth state < depth (last trace)"
  shows "\<exists>kept popped.
           adjustStackFrame env stk state trace cd codeHash = Inr kept
         \<and> stk = kept @ popped
         \<and> nExternal popped = min (depth (last trace) - depth state) (nExternal stk)
         \<and> (nExternal stk < depth (last trace) - depth state \<longrightarrow> kept = [])
         \<and> (depth (last trace) - depth state \<le> nExternal stk
              \<longrightarrow> popped \<noteq> [] \<and> isExternal (hd popped))"
proof -
  let ?n = "depth (last trace) - depth state"
  have pos: "0 < ?n" using assms(3) by simp
  from popFrames_split[where stk=stk and n="?n"] obtain p where
    p: "popFrames ?n stk @ p = stk" "nExternal p = min ?n (nExternal stk)"
       "nExternal stk < ?n \<longrightarrow> popFrames ?n stk = []"
       "0 < ?n \<and> ?n \<le> nExternal stk \<longrightarrow> p \<noteq> [] \<and> isExternal (hd p)"
    by (elim exE conjE)
  have "adjustStackFrame env stk state trace cd codeHash = Inr (popFrames ?n stk)"
    using assms by (rule adjust_decrease)
  moreover have "stk = popFrames ?n stk @ p" using p(1) by simp
  moreover have "?n \<le> nExternal stk \<longrightarrow> p \<noteq> [] \<and> isExternal (hd p)" using p(4) pos by simp
  ultimately show ?thesis using p(2,3)
    by (intro exI[of _ "popFrames ?n stk"] exI[of _ p] conjI) assumption+
qed

lemma wordAt_enough:
  "j < length s \<Longrightarrow> \<exists>w. wordAt s (int (length s) - 1 - int j) = Inr w"
  by (simp add: wordAt_def)

lemma numberAt_enough:
  "j < length s \<Longrightarrow> \<exists>n. numberAt s (int (length s) - 1 - int j) = Inr n"
  by (simp add: numberAt_def wordAt_def bindE_def)

lemma depthIncrease_enough:
  assumes "increasesDepth (op ls)" and "5 \<le> length (evmStack ls)"
  shows "\<exists>e. depthIncrease env stk f ls n cd h = Inr (stk @ [External e])"
proof -
  let ?s = "evmStack ls"
  have w: "\<exists>w. wordAt ?s (int (length ?s) - 1 - 1) = Inr w"
    using wordAt_enough[of 1 ?s] assms(2) by simp
  have n1: "\<exists>n. numberAt ?s (int (length ?s) - 1 - 1) = Inr n"
    using numberAt_enough[of 1 ?s] assms(2) by simp
  have n2: "\<exists>n. numberAt ?s (int (length ?s) - 1 - 2) = Inr n"
    using numberAt_enough[of 2 ?s] assms(2) by simp
  have n3: "\<exists>n. numberAt ?s (int (length ?s) - 1 - 3) = Inr n"
    using numberAt_enough[of 3 ?s] assms(2) by simp
  have n4: "\<exists>n. numberAt ?s (int (length ?s) - 1 - 4) = Inr n"
    using numberAt_enough[of 4 ?s] assms(2) by simp
  from w n1 n2 n3 n4 obtain w a b c d where
    e: "wordAt ?s (int (length ?s) - 1 - 1) = Inr w"
       "numberAt ?s (int (length ?s) - 1 - 1) = Inr a"
       "numberAt ?s (int (length ?s) - 1 - 2) = Inr b"
       "numberAt ?s (int (length ?s) - 1 - 3) = Inr c"
       "numberAt ?s (int (length ?s) - 1 - 4) = Inr d" by blast
  show ?thesis
    using assms(1) e unfolding depthIncrease_def Let_def bindE_def
    by simp
qed

text \<open>
  C3 (as amended). When the depth increases (there is a previous step and the frame stack
  is not empty), the reconciler fails with the depth-increase assertion exactly when the
  previous opcode is not depth-increasing. The size of the increase is not checked: the
  outcome is that of an increase by exactly one. After a depth-increasing opcode the
  outcome is either exactly one external frame pushed on the stack or a \<open>TypeError\<close>,
  and it is the pushed frame whenever the operand stack of the previous step holds at
  least five words.
\<close>

theorem depth_increase_assertion:
  assumes "trace \<noteq> []" and "stk \<noteq> []"
    and "depth (last trace) < depth state"
  shows "(adjustStackFrame env stk state trace cd codeHash
            = Inl (UnexpectedDepthIncrease (mnemonic (op (last trace))))
          \<longleftrightarrow> \<not> increasesDepth (op (last trace)))
       \<and> adjustStackFrame env stk state trace cd codeHash
            = adjustStackFrame env stk (state\<lparr>depth := depth (last trace) + 1\<rparr>) trace cd codeHash
       \<and> (increasesDepth (op (last trace)) \<longrightarrow>
            adjustStackFrame env stk state trace cd codeHash = Inl TypeError
            \<or> (\<exists>e. adjustStackFrame env stk state trace cd codeHash = Inr (stk @ [External e])))
       \<and> (increasesDepth (op (last trace)) \<and> 5 \<le> length (evmStack (last trace)) \<longrightarrow>
            (\<exists>e. adjustStackFrame env stk state trace cd codeHash = Inr (stk @ [External e])))"
proof -
  let ?d = "depthIncrease env stk (lastExternalFrame_of (last stk)) (last trace) (length trace) cd codeHash"
  have a: "adjustStackFrame env stk state trace cd codeHash = ?d"
    using assms by (rule adjust_increase)
  have b: "adjustStackFrame env stk (state\<lparr>depth := depth (last trace) + 1\<rparr>) trace cd codeHash = ?d"
    using assms(1,2) by (simp add: adjust_increase)
  have c: "increasesDepth (op (last trace)) \<longrightarrow> ?d = Inl TypeError \<or> (\<exists>e. ?d = Inr (stk @ [External e]))"
  proof
    assume i: "increasesDepth (op (last trace))"
    show "?d = Inl TypeError \<or> (\<exists>e. ?d = Inr (stk @ [External e]))"
    proof (cases ?d)
      case (Inl e)
      have "e = TypeError"
        using Inl i unfolding depthIncrease_def Let_def bindE_def
        by (auto split: sum.splits if_splits dest: numberAt_Inl wordAt_Inl)
      then show ?thesis using Inl by simp
    next
      case (Inr stk')
      then show ?thesis using depthIncrease_Inr[OF Inr] by simp
    qed
  qed
  have d: "increasesDepth (op (last trace)) \<and> 5 \<le> length (evmStack (last trace)) \<longrightarrow>
             (\<exists>e. ?d = Inr (stk @ [External e]))"
    using depthIncrease_enough by blast
  show ?thesis unfolding a b using c d by (simp add: depthIncrease_assert)
qed

lemma bigEndian_replicate0: "bigEndianBufToBigint (replicate n 0 @ b) = bigEndianBufToBigint b"
  by (induction n) (simp_all add: bigEndianBufToBigint_def)

lemma bigEndian_ex_word: "bigEndianBufToNumber (ex_word b) = unat b"
  by (simp add: ex_word_def bigEndianBufToNumber_def bigEndian_replicate0)
    (simp add: bigEndianBufToBigint_def)

lemma wordAt_top:
  "wordAt ws (int (length ws) - 1 - int j) = (if j < length ws then Inr (rev ws ! j) else Inl TypeError)"
  by (auto simp: wordAt_def rev_nth nat_diff_distrib' intro: arg_cong[where f="(!) ws"])

text \<open>
  A depth that jumps from 1 to 3 after a CALL is not a fatal error: one Call frame is
  pushed.
\<close>

theorem depth_increase_counterexample:
  "depth (ex_state ex_STOP 0 3 []) = depth (last [ex_step ex_CALL 0 1 (map ex_word [0, 0, 4, 0, 0, 2, 9]) [ex_callFrame None]]) + 2
   \<and> increasesDepth (op (last [ex_step ex_CALL 0 1 (map ex_word [0, 0, 4, 0, 0, 2, 9]) [ex_callFrame None]]))
   \<and> adjustStackFrame ex_env [ex_callFrame None] (ex_state ex_STOP 0 3 [])
        [ex_step ex_CALL 0 1 (map ex_word [0, 0, 4, 0, 0, 2, 9]) [ex_callFrame None]] [] None
      = Inr [ex_callFrame None,
             External (CallF \<lparr>callee = None, arguments = None, startStep = 1,
                      sender = Address_toString (ex_addr 2), msgData = [0xa9, 0x05, 0x9c, 0xbb],
                      address = ex_addr 2,
                      info = None, receiver = Address_toString (ex_addr 2), code = []\<rparr>)]"
  apply (simp add: adjust_increase ex_step_def ex_state_def ex_STOP_def ex_JUMP_def ex_JUMPDEST_def ex_CALL_def ex_DELEGATECALL_def increasesDepth_def createsContract_def
      OPCODES_CALL_def OPCODES_CALLCODE_def OPCODES_DELEGATECALL_def OPCODES_STATICCALL_def OPCODES_CREATE_def OPCODES_CREATE2_def
      depthIncrease_def)
  apply (simp add: numberAt_def wordAt_def bindE_def bigEndian_ex_word Let_def)
  apply (simp add: makeCallFrame_def ex_env_def ex_callFrame_def wordToAddress_def ex_word_def ex_addr_def
       slice_def relIndex_def ex_memory_def)
  done


text \<open>
  Two instances: a depth going from 1 to 2 after a STOP, and a depth going from 1 to 3
  after a CALL, with the outcome of a depth going from 1 to 2.
\<close>

theorem depth_increase_assertion_witness:
  "[ex_step ex_STOP 0 1 [] [ex_callFrame None]] \<noteq> [] \<and> [ex_callFrame None] \<noteq> []
   \<and> depth (last [ex_step ex_STOP 0 1 [] [ex_callFrame None]]) < depth (ex_state ex_STOP 0 2 [])
   \<and> \<not> increasesDepth (op (last [ex_step ex_STOP 0 1 [] [ex_callFrame None]]))
   \<and> adjustStackFrame ex_env [ex_callFrame None] (ex_state ex_STOP 0 2 [])
        [ex_step ex_STOP 0 1 [] [ex_callFrame None]] [] None
      = Inl (UnexpectedDepthIncrease ''STOP'')
   \<and> adjustStackFrame ex_env [ex_callFrame None] (ex_state ex_STOP 0 3 [])
        [ex_step ex_CALL 0 1 (map ex_word [0, 0, 4, 0, 0, 2, 9]) [ex_callFrame None]] [] None
      = adjustStackFrame ex_env [ex_callFrame None] (ex_state ex_STOP 0 2 [])
        [ex_step ex_CALL 0 1 (map ex_word [0, 0, 4, 0, 0, 2, 9]) [ex_callFrame None]] [] None"
proof -
  have s: "(ex_state ex_STOP 0 3 [])\<lparr>depth := depth (last [ex_step ex_CALL 0 1 ws fs]) + 1\<rparr>
             = ex_state ex_STOP 0 2 []" for ws fs
    by (simp add: ex_state_def ex_step_def)
  have d: "depth (last [ex_step ex_CALL 0 1 ws fs]) < depth (ex_state ex_STOP 0 3 [])" for ws fs
    by (simp add: ex_state_def ex_step_def)
  have ne: "[x] \<noteq> []" for x :: StepState by simp
  have ne': "[ex_callFrame None] \<noteq> []" by simp
  note t = depth_increase_assertion[OF ne ne' d, where env=ex_env and cd="[]" and codeHash=None]
  have "adjustStackFrame ex_env [ex_callFrame None] (ex_state ex_STOP 0 3 [])
        [ex_step ex_CALL 0 1 (map ex_word [0, 0, 4, 0, 0, 2, 9]) [ex_callFrame None]] [] None
      = adjustStackFrame ex_env [ex_callFrame None] (ex_state ex_STOP 0 2 [])
        [ex_step ex_CALL 0 1 (map ex_word [0, 0, 4, 0, 0, 2, 9]) [ex_callFrame None]] [] None"
    using conjunct1[OF conjunct2[OF t]] unfolding s .
  then show ?thesis
    using depth_increase_assertion[of "[ex_step ex_STOP 0 1 [] [ex_callFrame None]]"
      "[ex_callFrame None]" "ex_state ex_STOP 0 2 []" ex_env "[]" None]
    by (simp add: ex_step_def ex_state_def ex_STOP_def ex_JUMP_def ex_JUMPDEST_def ex_CALL_def
        ex_DELEGATECALL_def increasesDepth_def
        OPCODES_CALL_def OPCODES_CALLCODE_def OPCODES_DELEGATECALL_def OPCODES_STATICCALL_def
        OPCODES_CREATE_def OPCODES_CREATE2_def)
qed

text \<open>
  C5. On a step at the depth of the previous one, whose opcode is JUMP and whose source
  triple (decoded for the current program counter in the current external frame) has
  jump kind \<open>o\<close>, the reconciler fails with the mismatched-return assertion when the
  frame on top is not an InternalCall frame, and otherwise pops exactly that frame.
\<close>

theorem internal_return:
  assumes "trace \<noteq> []"
    and "depth (last trace) = depth state"
    and "lastExternalFrame stk = Inr curExt"
    and "decodeSourceLoc (pc state) curExt = Inr (Some sl, node)"
    and "mnemonic (op state) = ''JUMP''" and "jump sl = ''o''"
  shows "adjustStackFrame env stk state trace cd codeHash =
           (if kind (last stk) = InternalCall then Inr (butlast stk)
            else Inl MismatchedInternalReturn)"
proof -
  have ne: "stk \<noteq> []" using assms(3) by (auto simp: lastExternalFrame_def split: if_splits)
  show ?thesis
    using assms ne
    by (simp add: adjust_same sameDepth_def bindE_def Let_def)
qed

lemma internalCallArgs_eq:
  "internalCallArgs node ws =
     (if isFunctionOrStateVariable node
      then (case decodeFunArgs (the node) ws of
              Inl e \<Rightarrow> Inl e
            | Inr r \<Rightarrow> Inr (map_option (map (\<lambda>(n, v). (n, Some v))) r))
      else Inr None)"
  by (auto simp: internalCallArgs_def isFunctionOrStateVariable_def bindE_def
      split: option.splits ASTNode.splits sum.splits)

text \<open>
  C4. On a step at the depth of the previous one, with the current opcode JUMPDEST, the
  previous opcode JUMP and the previous step's source triple of jump kind \<open>i\<close>, the
  reconciler pushes an InternalCall frame: its callee is the AST node at the current
  source triple, its offset the current program counter, its start step the trace index,
  and its arguments are those of \<open>decodeFunArgs\<close> on the callee and the current operand
  stack, computed only for a FunctionDefinition or a state-variable VariableDeclaration
  (a failure of \<open>decodeFunArgs\<close> is the failure of the step).
\<close>

theorem internal_entry:
  assumes "trace \<noteq> []"
    and "depth (last trace) = depth state"
    and "lastExternalFrame stk = Inr curExt"
    and "decodeSourceLoc (pc state) curExt = Inr (Some sl, node)"
    and "mnemonic (op state) = ''JUMPDEST''" and "mnemonic (op (last trace)) = ''JUMP''"
    and "src (last trace) = Some ls" and "jump ls = ''i''"
  shows "adjustStackFrame env stk state trace cd codeHash =
           (if isFunctionOrStateVariable node
            then (case decodeFunArgs (the node) (evmStack state) of
                    Inl e \<Rightarrow> Inl e
                  | Inr r \<Rightarrow>
                      Inr (stk @ [Internal
                        \<lparr>callee = node,
                          arguments = map_option (map (\<lambda>(n, v). (n, Some v))) r,
                          startStep = length trace, nearestExtFrame = curExt,
                          offset = pc state\<rparr>]))
            else Inr (stk @ [Internal
                        \<lparr>callee = node, arguments = None, startStep = length trace,
                          nearestExtFrame = curExt, offset = pc state\<rparr>]))"
proof -
  have ne: "stk \<noteq> []" and ce: "curExt = lastExternalFrame_of (last stk)"
    using lastExternalFrame_Inr[OF assms(3)] by simp_all
  have "adjustStackFrame env stk state trace cd codeHash =
          (case internalCallArgs node (evmStack state) of
              Inl e \<Rightarrow> Inl e
            | Inr args \<Rightarrow>
                Inr (stk @ [Internal \<lparr>callee = node, arguments = args, startStep = length trace,
                                       nearestExtFrame = curExt, offset = pc state\<rparr>]))"
    unfolding ce using assms ne
    by (simp add: adjust_same sameDepth_def bindE_def Let_def)
  then show ?thesis
    by (simp add: internalCallArgs_eq split: sum.splits)
qed

text \<open>
  C6. When the depth increases after a depth-increasing opcode that does not create a
  contract, the new Call frame has: the argument offset and size read at \<open>top - 3\<close> and
  \<open>top - 4\<close> for CALL and CALLCODE, at \<open>top - 2\<close> and \<open>top - 3\<close> for DELEGATECALL and
  STATICCALL (\<open>ws ! j\<close> is the word at \<open>top - j\<close>); as receiver the rightmost 20 bytes of
  the word at \<open>top - 1\<close>; as msg-data the slice \<open>[argOff, argOff + argSize)\<close> of the
  previous step's memory. The frame is pushed when the operand stack holds these words,
  and reading a missing one throws.
\<close>

theorem external_call_frame:
  assumes "trace \<noteq> []" and "stk \<noteq> []"
    and "depth (last trace) < depth state"
    and "increasesDepth (op (last trace))" and "\<not> createsContract (op (last trace))"
    and "k = (if opcode (op (last trace)) = OPCODES_DELEGATECALL
                \<or> opcode (op (last trace)) = OPCODES_STATICCALL then 2 else 3)"
    and "ws = rev (evmStack (last trace))"
    and "rcvr = Address (drop (length (ws ! 1) - 20) (ws ! 1))"
    and "data = slice (memBytes (memory (last trace)))
                  (int (bigEndianBufToNumber (ws ! k)))
                  (int (bigEndianBufToNumber (ws ! k)) + int (bigEndianBufToNumber (ws ! (k + 1))))"
    and "f = makeCallFrame env (Address_toString (ext_address (lastExternalFrame_of (last stk))))
               rcvr data cd codeHash (length trace)"
  shows "adjustStackFrame env stk state trace cd codeHash =
           (if k + 1 < length ws then Inr (stk @ [External (CallF f)]) else Inl TypeError)
         \<and> msgData f = data \<and> address f = rcvr \<and> receiver f = Address_toString rcvr
         \<and> startStep f = length trace"
proof -
  let ?ls = "last trace"
  have k: "(if opcode (op ?ls) = OPCODES_CALL \<or> opcode (op ?ls) = OPCODES_CALLCODE then 3 else 2) = int k"
    using assms(4,5,6)
    by (auto simp: increasesDepth_def createsContract_def OPCODES_CALL_def OPCODES_CALLCODE_def
        OPCODES_DELEGATECALL_def OPCODES_STATICCALL_def)
  have k23: "k = 2 \<or> k = 3" using assms(6) by auto
  have w: "\<And>j. wordAt (evmStack ?ls) (int (length (evmStack ?ls)) - 1 - int j)
              = (if j < length ws then Inr (ws ! j) else Inl TypeError)"
    using wordAt_top[of "evmStack ?ls"] assms(7) by simp
  have n: "\<And>j. numberAt (evmStack ?ls) (int (length (evmStack ?ls)) - 1 - int j)
              = (if j < length ws then Inr (bigEndianBufToNumber (ws ! j)) else Inl TypeError)"
    by (simp add: numberAt_def w bindE_def)
  have n2: "numberAt (evmStack ?ls) (int (length (evmStack ?ls)) - 3)
              = (if 2 < length ws then Inr (bigEndianBufToNumber (ws ! 2)) else Inl TypeError)"
    using n[of 2] by simp
  have n3: "numberAt (evmStack ?ls) (int (length (evmStack ?ls)) - 4)
              = (if 3 < length ws then Inr (bigEndianBufToNumber (ws ! 3)) else Inl TypeError)"
    using n[of 3] by simp
  have n4: "numberAt (evmStack ?ls) (int (length (evmStack ?ls)) - 5)
              = (if 4 < length ws then Inr (bigEndianBufToNumber (ws ! 4)) else Inl TypeError)"
    using n[of 4] by simp
  have w1: "wordAt (evmStack ?ls) (int (length (evmStack ?ls)) - 2)
              = (if 1 < length ws then Inr (ws ! 1) else Inl TypeError)"
    using w[of 1] by simp
  have "depthIncrease env stk (lastExternalFrame_of (last stk)) ?ls (length trace) cd codeHash =
          (if k + 1 < length ws then Inr (stk @ [External (CallF f)]) else Inl TypeError)"
    unfolding depthIncrease_def Let_def k
    using assms(4,5,8,9,10) k23
    by (auto simp: n2 n3 n4 w1 bindE_def wordToAddress_def)
  then show ?thesis
    using assms(1,2,3,10)
    by (simp add: adjust_increase makeCallFrame_def Let_def)
qed


section \<open>The reconciler on concrete steps\<close>

lemma ex_lastExt:
  "lastExternalFrame [ex_callFrame ci] = Inr (lastExternalFrame_of (ex_callFrame ci))"
  "lastExternalFrame [ex_callFrame (Some ex_info), ex_internalFrame]
     = Inr (lastExternalFrame_of (ex_callFrame (Some ex_info)))"
  by (simp_all add: lastExternalFrame_def ex_internalFrame_def)

lemma ex_src40:
  "decodeSourceLoc 40 (lastExternalFrame_of (ex_callFrame (Some ex_info))) =
     Inr (Some \<lparr>start = 40, len = 1, sourceIndex = 0, jump = ''o''\<rparr>, None)"
  by (simp add: decodeSourceLoc_def ex_callFrame_def ex_info_def getOffsetSrc_def ex_srcAt_def Let_def)

lemma ex_src20:
  "decodeSourceLoc 20 (lastExternalFrame_of (ex_callFrame (Some ex_info))) =
     Inr (Some \<lparr>start = 100, len = 1, sourceIndex = 0, jump = ''-''\<rparr>, Some (FunDef ex_fun))"
  by (simp add: decodeSourceLoc_def ex_callFrame_def ex_info_def getOffsetSrc_def ex_srcAt_def Let_def)

text \<open>
  Two instances: a JUMP with jump kind \<open>o\<close> over an internal frame, and over a Call frame.
\<close>

theorem internal_return_witness:
  "adjustStackFrame ex_env [ex_callFrame (Some ex_info), ex_internalFrame] (ex_state ex_JUMP 40 1 [])
     [ex_step ex_STOP 39 1 [] [ex_callFrame (Some ex_info), ex_internalFrame]] [] None
     = Inr [ex_callFrame (Some ex_info)]
   \<and> adjustStackFrame ex_env [ex_callFrame (Some ex_info)] (ex_state ex_JUMP 40 1 [])
     [ex_step ex_STOP 39 1 [] [ex_callFrame (Some ex_info)]] [] None
     = Inl MismatchedInternalReturn"
proof -
  have p: "pc (ex_state ex_JUMP 40 1 []) = 40" by (simp add: ex_state_def)
  have m: "mnemonic (op (ex_state ex_JUMP 40 1 [])) = ''JUMP''"
    by (simp add: ex_state_def ex_STOP_def ex_JUMP_def ex_JUMPDEST_def ex_CALL_def ex_DELEGATECALL_def)
  have j: "jump \<lparr>start = 40, len = 1, sourceIndex = 0, jump = ''o''\<rparr> = ''o''" by simp
  have d: "\<And>fs. depth (last [ex_step ex_STOP 39 1 [] fs]) = depth (ex_state ex_JUMP 40 1 [])"
    by (simp add: ex_state_def ex_step_def)
  have ne: "\<And>fs. [ex_step ex_STOP 39 1 [] fs] \<noteq> []" by simp
  have sl: "decodeSourceLoc (pc (ex_state ex_JUMP 40 1 []))
              (lastExternalFrame_of (ex_callFrame (Some ex_info))) =
            Inr (Some \<lparr>start = 40, len = 1, sourceIndex = 0, jump = ''o''\<rparr>, None)"
    by (simp add: ex_state_def ex_src40)
  show ?thesis
    using internal_return[OF ne d ex_lastExt(2) sl m j, where env=ex_env and cd="[]" and codeHash=None]
      internal_return[OF ne d ex_lastExt(1) sl m j, where env=ex_env and cd="[]" and codeHash=None]
    by (simp add: ex_internalFrame_def ex_callFrame_def)
qed

lemma ex_decodeFunArgs:
  "decodeFunArgs (FunDef ex_fun) [a, b, c] =
     Inr (Some [(''data'', \<lparr>vtype = TypeNode ''data'' True, originalType = None, loc = StackLocation 2\<rparr>),
                (''amount'', \<lparr>vtype = TypeNode ''amount'' False, originalType = None, loc = StackLocation 0\<rparr>)])"
  by (simp add: decodeFunArgs_def ex_fun_def ex_param_def isCalldataType2Slots_def)

text \<open>
  An instance: a JUMPDEST that follows a JUMP of jump kind \<open>i\<close>, at the source triple of a
  function with two parameters.
\<close>

theorem internal_entry_witness:
  "adjustStackFrame ex_env [ex_callFrame (Some ex_info)] (ex_state ex_JUMPDEST 20 1 [[1], [2], [3]])
     [ex_step ex_JUMP 10 1 [] [ex_callFrame (Some ex_info)]] [] None
     = Inr [ex_callFrame (Some ex_info),
            Internal \<lparr>callee = Some (FunDef ex_fun),
              arguments = Some [(''data'', Some \<lparr>vtype = TypeNode ''data'' True, originalType = None, loc = StackLocation 2\<rparr>),
                (''amount'', Some \<lparr>vtype = TypeNode ''amount'' False, originalType = None, loc = StackLocation 0\<rparr>)],
              startStep = 1,
              nearestExtFrame = lastExternalFrame_of (ex_callFrame (Some ex_info)),
              offset = 20\<rparr>]"
proof -
  let ?st = "ex_state ex_JUMPDEST 20 1 [[1], [2], [3]]"
  let ?tr = "[ex_step ex_JUMP 10 1 [] [ex_callFrame (Some ex_info)]]"
  have p: "pc ?st = 20" by (simp add: ex_state_def)
  have m: "mnemonic (op ?st) = ''JUMPDEST''"
    by (simp add: ex_state_def ex_STOP_def ex_JUMP_def ex_JUMPDEST_def ex_CALL_def ex_DELEGATECALL_def)
  have m': "mnemonic (op (last ?tr)) = ''JUMP''"
    by (simp add: ex_step_def ex_STOP_def ex_JUMP_def ex_JUMPDEST_def ex_CALL_def ex_DELEGATECALL_def)
  have s: "src (last ?tr) = Some \<lparr>start = 10, len = 1, sourceIndex = 0, jump = ''i''\<rparr>"
    by (simp add: ex_step_def ex_lastExt ex_callFrame_def ex_info_def ex_srcAt_def lastExternalFrame_def)
  have j: "jump \<lparr>start = 10, len = 1, sourceIndex = 0, jump = ''i''\<rparr> = ''i''" by simp
  have d: "depth (last ?tr) = depth ?st"
    by (simp add: ex_state_def ex_step_def)
  have ne: "?tr \<noteq> []" by simp
  have e: "evmStack ?st = [[1], [2], [3]]" by (simp add: ex_state_def)
  have sl: "decodeSourceLoc (pc ?st) (lastExternalFrame_of (ex_callFrame (Some ex_info))) =
     Inr (Some \<lparr>start = 100, len = 1, sourceIndex = 0, jump = ''-''\<rparr>, Some (FunDef ex_fun))"
    by (simp add: ex_state_def ex_src20)
  show ?thesis
    using internal_entry[OF ne d ex_lastExt(1) sl m m' s j, where env=ex_env and cd="[]" and codeHash=None]
    by (simp add: isFunctionOrStateVariable_def ex_state_def ex_decodeFunArgs)
qed

text \<open>
  Two instances: a depth going from 1 to 2 after a CALL and after a DELEGATECALL.
\<close>

theorem external_call_frame_witness:
  "adjustStackFrame ex_env [ex_callFrame None] (ex_state ex_STOP 0 2 [])
        [ex_step ex_CALL 0 1 (map ex_word [0, 0, 4, 0, 0, 2, 9]) [ex_callFrame None]] [] None
      = Inr [ex_callFrame None,
             External (CallF \<lparr>callee = None, arguments = None, startStep = 1,
                      sender = Address_toString (ex_addr 2), msgData = [0xa9, 0x05, 0x9c, 0xbb],
                      address = ex_addr 2,
                      info = None, receiver = Address_toString (ex_addr 2), code = []\<rparr>)]
   \<and> adjustStackFrame ex_env [ex_callFrame None] (ex_state ex_STOP 0 2 [])
        [ex_step ex_DELEGATECALL 0 1 (map ex_word [0, 0, 3, 4, 2, 9]) [ex_callFrame None]] [] None
      = Inr [ex_callFrame None,
             External (CallF \<lparr>callee = None, arguments = None, startStep = 1,
                      sender = Address_toString (ex_addr 2), msgData = [0x01, 0x02, 0x03],
                      address = ex_addr 2,
                      info = None, receiver = Address_toString (ex_addr 2), code = []\<rparr>)]"
proof -
  let ?st = "ex_state ex_STOP 0 2 []"
  let ?t1 = "[ex_step ex_CALL 0 1 (map ex_word [0, 0, 4, 0, 0, 2, 9]) [ex_callFrame None]]"
  let ?t2 = "[ex_step ex_DELEGATECALL 0 1 (map ex_word [0, 0, 3, 4, 2, 9]) [ex_callFrame None]]"
  have ne: "\<And>s. [s] \<noteq> []" and ne': "[ex_callFrame None] \<noteq> []" by simp_all
  have d: "\<And>opI ws. depth (last [ex_step opI 0 1 ws [ex_callFrame None]]) < depth ?st"
    by (simp add: ex_state_def ex_step_def)
  have i: "increasesDepth (op (last ?t1))" "increasesDepth (op (last ?t2))"
    by (simp_all add: ex_step_def ex_CALL_def ex_DELEGATECALL_def increasesDepth_def)
  have c: "\<not> createsContract (op (last ?t1))" "\<not> createsContract (op (last ?t2))"
    by (simp_all add: ex_step_def ex_CALL_def ex_DELEGATECALL_def createsContract_def
        OPCODES_CALL_def OPCODES_DELEGATECALL_def OPCODES_CREATE_def OPCODES_CREATE2_def)
  have k: "3 = (if opcode (op (last ?t1)) = OPCODES_DELEGATECALL
                 \<or> opcode (op (last ?t1)) = OPCODES_STATICCALL then 2 else (3::nat))"
          "2 = (if opcode (op (last ?t2)) = OPCODES_DELEGATECALL
                 \<or> opcode (op (last ?t2)) = OPCODES_STATICCALL then 2 else (3::nat))"
    by (simp_all add: ex_step_def ex_CALL_def ex_DELEGATECALL_def
        OPCODES_CALL_def OPCODES_DELEGATECALL_def OPCODES_STATICCALL_def)
  have w: "map ex_word [9, 2, 0, 0, 4, 0, 0] = rev (evmStack (last ?t1))"
          "map ex_word [9, 2, 4, 3, 0, 0] = rev (evmStack (last ?t2))"
    by (simp_all add: ex_step_def)
  have r: "ex_addr 2 = Address (drop (length (map ex_word [9, 2, 0, 0, 4, 0, 0] ! 1) - 20)
                                  (map ex_word [9, 2, 0, 0, 4, 0, 0] ! 1))"
          "ex_addr 2 = Address (drop (length (map ex_word [9, 2, 4, 3, 0, 0] ! 1) - 20)
                                  (map ex_word [9, 2, 4, 3, 0, 0] ! 1))"
    by (simp_all add: ex_word_def ex_addr_def)
  have m: "[0xa9, 0x05, 0x9c, 0xbb] =
             slice (memBytes (memory (last ?t1)))
               (int (bigEndianBufToNumber (map ex_word [9, 2, 0, 0, 4, 0, 0] ! 3)))
               (int (bigEndianBufToNumber (map ex_word [9, 2, 0, 0, 4, 0, 0] ! 3))
                + int (bigEndianBufToNumber (map ex_word [9, 2, 0, 0, 4, 0, 0] ! (3 + 1))))"
          "[0x01, 0x02, 0x03] =
             slice (memBytes (memory (last ?t2)))
               (int (bigEndianBufToNumber (map ex_word [9, 2, 4, 3, 0, 0] ! 2)))
               (int (bigEndianBufToNumber (map ex_word [9, 2, 4, 3, 0, 0] ! 2))
                + int (bigEndianBufToNumber (map ex_word [9, 2, 4, 3, 0, 0] ! (2 + 1))))"
    by (simp_all add: bigEndian_ex_word ex_step_def ex_memory_def slice_def relIndex_def)
  have f: "\<lparr>callee = None, arguments = None, startStep = 1,
            sender = Address_toString (ex_addr 2), msgData = data,
            address = ex_addr 2,
            info = None, receiver = Address_toString (ex_addr 2), code = []\<rparr> =
           makeCallFrame ex_env (Address_toString (ext_address (lastExternalFrame_of (last [ex_callFrame None]))))
             (ex_addr 2) data [] None (length [s])" for data and s :: StepState
    by (simp add: makeCallFrame_def ex_env_def ex_callFrame_def)
  show ?thesis
    using external_call_frame[OF ne ne' d i(1) c(1) k(1) w(1) r(1) m(1) f]
      external_call_frame[OF ne ne' d i(2) c(2) k(2) w(2) r(2) m(2) f]
    by simp
qed


section \<open>One step of the trace\<close>

lemma translateStep_fields:
  assumes "translateStep env step trace fresh = (st, fresh')"
  shows "evmStack st = map toArray_be32 (rawStack step)"
    and "depth st = rawDepth step + 1"
    and "pc st = rawPc step"
    and "op st = getOpInfo env (rawOpName step)"
    and "memory st = (if trace = [] \<or> changesMemory env (op (last trace))
                      then \<lparr>memRef = fresh, memBytes = rawMemory step\<rparr>
                      else memory (last trace))"
    and "storage st = (if trace = [] \<or> opcode (op (last trace)) = OPCODES_SSTORE
                       then getStorage env (rawStateManager step) (rawAddress step)
                              (if trace = [] \<or> changesMemory env (op (last trace)) then fresh + 1 else fresh)
                       else storage (last trace))"
    and "fresh' = fresh + (if trace = [] \<or> changesMemory env (op (last trace)) then 1 else 0)
                        + (if trace = [] \<or> opcode (op (last trace)) = OPCODES_SSTORE then 1 else 0)"
  using assms
  by (auto simp: translateStep_def Let_def split: prod.splits if_splits option.splits)

lemma processRawTraceStep_Inr:
  assumes "processRawTraceStep env vm step trace stk fresh = Inr (s, stk', fresh')"
  shows "\<exists>st cd h curExt.
           translateStep env step trace fresh = (st, fresh')
         \<and> adjustStackFrame env stk st trace cd h = Inr stk'
         \<and> lastExternalFrame stk' = Inr curExt
         \<and> emittedEventOf (rawOpName step) (evmStack st) (memory st) = Inr (emittedEvent s)
         \<and> evmStack s = evmStack st \<and> memory s = memory st \<and> storage s = storage st
         \<and> op s = op st \<and> depth s = depth st \<and> pc s = pc st
         \<and> stack s = stk'"
  using assms
  by (auto simp: processRawTraceStep_def Let_def bindE_def StepVMState.defs StepState.defs
      split: prod.splits sum.splits)


lemma be_prefix:
  "n \<le> 32 \<Longrightarrow>
   foldl (\<lambda>acc x. acc * 256 + unat x) 0
     (map (\<lambda>i. (ucast (drop_bit (8 * (31 - i)) (w :: 256 word)) :: 8 word)) [0..<n])
   = unat w div 2 ^ (8 * (32 - n))"
proof (induction n)
  case 0
  have "unat w < 2 ^ 256" using unsigned_less[of w] by simp
  then show ?case by simp
next
  case (Suc n)
  let ?k = "8 * (31 - n)"
  have k: "8 * (32 - n) = ?k + 8" using Suc.prems by simp
  have "unat (ucast (drop_bit ?k w) :: 8 word) = drop_bit ?k (unat w) mod 256"
    by (simp add: unsigned_ucast_eq unat_drop_bit_eq take_bit_eq_mod)
  then have "unat (ucast (drop_bit ?k w) :: 8 word) = (unat w div 2 ^ ?k) mod 256"
    by (simp add: drop_bit_eq_div)
  moreover have "unat w div 2 ^ (?k + 8) * 256 + (unat w div 2 ^ ?k) mod 256 = unat w div 2 ^ ?k"
    by (simp add: power_add div_mult2_eq)
  ultimately show ?case using Suc k by simp
qed

lemma bigEndian_toArray: "bigEndianBufToBigint (toArray_be32 w) = unat w"
  using be_prefix[of 32 w] by (simp add: bigEndianBufToBigint_def toArray_be32_def)

lemma length_toArray: "length (toArray_be32 w) = 32"
  by (simp add: toArray_be32_def)


lemma charToNumber_digit: "N < 10 \<Longrightarrow> charToNumber (''0123456789'' ! N) = Some (int N)"
proof -
  assume "N < 10"
  then have "N \<in> {0, 1, 2, 3, 4, 5, 6, 7, 8, 9}" by simp arith
  then show ?thesis by (auto simp: charToNumber_def)
qed

lemma rev_slice_below:
  assumes "N + 2 \<le> length stk"
  shows "rev (slice stk (int (length stk) - 2 - int N) (int (length stk) - 2)) = take N (drop 2 (rev stk))"
proof -
  let ?m = "length stk - 2 - N"
  have a: "relIndex (int (length stk) - 2 - int N) (length stk) = ?m"
    using assms by (auto simp: relIndex_def)
  have b: "relIndex (int (length stk) - 2) (length stk) = length stk - 2"
    using assms by (auto simp: relIndex_def)
  have c: "length stk - 2 - ?m = N" using assms by simp
  have "slice stk (int (length stk) - 2 - int N) (int (length stk) - 2) = take N (drop ?m stk)"
    unfolding slice_def Let_def a b c ..
  moreover have "rev (take N (drop ?m stk)) = take N (drop 2 (rev stk))"
    using assms by (simp add: rev_take rev_drop drop_take)
  ultimately show ?thesis by simp
qed

lemma emittedEventOf_LOG:
  assumes "take 3 nm = ''LOG''" and "3 < length nm" and "N < 10" and "nm ! 3 = ''0123456789'' ! N"
    and "N + 2 \<le> length stk"
  shows "emittedEventOf nm stk mem =
           Inr (Some \<lparr>payload = slice (memBytes mem)
                                   (int (bigEndianBufToNumber (rev stk ! 0)))
                                   (int (bigEndianBufToNumber (rev stk ! 0))
                                    + int (bigEndianBufToNumber (rev stk ! 1))),
                       topics = map bigEndianBufToBigint (take N (drop 2 (rev stk)))\<rparr>)"
proof -
  have n: "nTopicsOf nm = Some (int N)"
    using assms(2,3,4) by (simp add: nTopicsOf_def charToNumber_digit)
  have w0: "numberAt stk (int (length stk) - 1) = Inr (bigEndianBufToNumber (rev stk ! 0))"
    using wordAt_top[of stk 0] assms(5) by (auto simp: numberAt_def bindE_def)
  have w1: "numberAt stk (int (length stk) - 2) = Inr (bigEndianBufToNumber (rev stk ! 1))"
    using wordAt_top[of stk 1] assms(5) by (auto simp: numberAt_def bindE_def)
  show ?thesis
    using assms(1) rev_slice_below[OF assms(5)]
    by (simp add: emittedEventOf_def w0 w1 n bindE_def Let_def)
qed

text \<open>
  C8 (as amended). For a step whose opcode name begins with \<open>LOG\<close> and has the digit of
  \<open>N\<close> as fourth character, and whose operand stack holds at least \<open>N + 2\<close> words, the
  emitted event has as payload the memory slice \<open>[offset, offset + size)\<close>, with offset
  and size read at the top and below it, and exactly \<open>N\<close> topics: the \<open>N\<close> words below
  the size, the nearest first, each read as a big-endian unsigned integer, which is the
  value of the VM's 256-bit word (\<open>ws ! j\<close> is the word at \<open>top - j\<close>).
\<close>

theorem log_event:
  assumes "processRawTraceStep env vm step trace stk fresh = Inr (s, stk', fresh')"
    and "take 3 (rawOpName step) = ''LOG''" and "3 < length (rawOpName step)"
    and "N < 10" and "rawOpName step ! 3 = ''0123456789'' ! N"
    and "N + 2 \<le> length (evmStack s)"
    and "ws = rev (evmStack s)"
  shows "emittedEvent s =
           Some \<lparr>payload = slice (memBytes (memory s))
                              (int (bigEndianBufToNumber (ws ! 0)))
                              (int (bigEndianBufToNumber (ws ! 0)) + int (bigEndianBufToNumber (ws ! 1))),
                  topics = map bigEndianBufToBigint (take N (drop 2 ws))\<rparr>
         \<and> length (take N (drop 2 ws)) = N
         \<and> map bigEndianBufToBigint (take N (drop 2 ws))
             = map unat (take N (drop 2 (rev (rawStack step))))"
proof -
  from processRawTraceStep_Inr[OF assms(1)] obtain st where
    st: "translateStep env step trace fresh = (st, fresh')"
        "emittedEventOf (rawOpName step) (evmStack st) (memory st) = Inr (emittedEvent s)"
        "evmStack s = evmStack st" "memory s = memory st"
    by blast
  have "emittedEventOf (rawOpName step) (evmStack s) (memory s) = Inr (emittedEvent s)"
    using st by simp
  then have "emittedEvent s =
           Some \<lparr>payload = slice (memBytes (memory s))
                              (int (bigEndianBufToNumber (ws ! 0)))
                              (int (bigEndianBufToNumber (ws ! 0)) + int (bigEndianBufToNumber (ws ! 1))),
                  topics = map bigEndianBufToBigint (take N (drop 2 ws))\<rparr>"
    using emittedEventOf_LOG[OF assms(2,3,4,5,6), of "memory s"] assms(7) by simp
  moreover have "length (take N (drop 2 ws)) = N" using assms(6,7) by simp
  moreover have "evmStack s = map toArray_be32 (rawStack step)"
    using st(3) translateStep_fields(1)[OF st(1)] by simp
  then have "map bigEndianBufToBigint (take N (drop 2 ws))
             = map unat (take N (drop 2 (rev (rawStack step))))"
    using assms(7) by (simp add: rev_map take_map drop_map bigEndian_toArray o_def)
  ultimately show ?thesis by simp
qed

section \<open>The initial frame\<close>

lemma hexDigit_zero: "m < 16 \<Longrightarrow> (hexDigit m = CHR ''0'') = (m = 0)"
proof -
  assume "m < 16"
  then have "m \<in> {0, 1, 2, 3, 4, 5, 6, 7, 8, 9, 10, 11, 12, 13, 14, 15}" by simp arith
  then show ?thesis by (auto simp: hexDigit_def)
qed

lemma byteToHex_zero: "(byteToHex b = ''00'') = (b = 0)"
proof -
  have lt: "unat b < 256" using unsigned_less[of b] by simp
  then have a: "unat b div 16 < 16" by simp
  have "(byteToHex b = ''00'') = (unat b div 16 = 0 \<and> unat b mod 16 = 0)"
    using a by (simp add: byteToHex_def hexDigit_zero)
  also have "\<dots> = (unat b = 0)" by auto
  also have "\<dots> = (b = 0)" by (simp add: unat_eq_0)
  finally show ?thesis .
qed

lemma toHex_zeros: "(toHex bs = replicate (2 * n) (CHR ''0'')) = (bs = replicate n 0)"
proof (induction bs arbitrary: n)
  case Nil
  then show ?case by (auto simp: toHex_def)
next
  case (Cons b bs)
  have c: "toHex (b # bs) = byteToHex b @ toHex bs" by (simp add: toHex_def)
  show ?case
  proof (cases n)
    case 0
    then show ?thesis by (simp add: c byteToHex_def)
  next
    case (Suc k)
    have "(toHex (b # bs) = replicate (2 * n) (CHR ''0'')) =
          (byteToHex b @ toHex bs = ''00'' @ replicate (2 * k) (CHR ''0''))"
      using Suc by (simp add: c)
    also have "\<dots> = (byteToHex b = ''00'' \<and> toHex bs = replicate (2 * k) (CHR ''0''))"
      by (simp add: byteToHex_def)
    also have "\<dots> = (b = 0 \<and> bs = replicate k 0)"
      using Cons.IH[of k] by (simp add: byteToHex_zero)
    finally show ?thesis using Suc by simp
  qed
qed

lemma ZERO_ADDRESS_STRING_eq: "ZERO_ADDRESS_STRING = ''0x'' @ replicate (2 * 20) (CHR ''0'')"
  by (simp add: ZERO_ADDRESS_STRING_def eval_nat_numeral)

lemma Address_toString_zero: "(Address_toString a = ZERO_ADDRESS_STRING) = (a = ZERO_ADDRESS)"
proof -
  have "(Address_toString a = ZERO_ADDRESS_STRING) = (toHex (buf a) = replicate (2 * 20) (CHR ''0''))"
    unfolding ZERO_ADDRESS_STRING_eq Address_toString_def by simp
  also have "\<dots> = (buf a = replicate 20 0)" by (rule toHex_zeros)
  also have "\<dots> = (a = ZERO_ADDRESS)" by (cases a) (simp add: ZERO_ADDRESS_def)
  finally show ?thesis .
qed

text \<open>
  C10. The initial frame of \<open>debugTx\<close> is a Creation frame built from the transaction
  data when the transaction has no recipient and also when its recipient is the zero
  address; it is a Call frame, with the code fetched from the state manager at the
  recipient, only when the recipient is present and is not the zero address.
\<close>

theorem initialFrame_kind:
  "(txTo tx = None \<or> txTo tx = Some ZERO_ADDRESS \<longrightarrow>
      initialFrame env vm tx =
        External (CreationF (makeCreationFrame env (Address_toString (txSender tx)) (txData tx) 0)))
   \<and> (\<forall>a. txTo tx = Some a \<and> a \<noteq> ZERO_ADDRESS \<longrightarrow>
      initialFrame env vm tx =
        External (CallF (makeCallFrame env (Address_toString (txSender tx)) a (txData tx)
                           (getContractCode vm a) (getCodeHash env (getContractCode vm a)) 0)))"
  by (auto simp: initialFrame_def Let_def Address_toString_zero)


lemma ex_lastExt1: "lastExternalFrame [ex_callFrame ci] = Inr (lastExternalFrame_of (ex_callFrame ci))"
  by (simp add: lastExternalFrame_def)

text \<open>
  A LOG2 step whose operand stack holds three words (the VM reports the step before it
  fails on the underflow) records an event without topics: the start of the slice is
  negative and counts from the end.
\<close>

theorem log_event_counterexample:
  "stepEvent (processRawTraceStep ex_env ex_vm (ex_raw ''LOG2'' 0 0 [1, 4, 0]) [] [ex_callFrame None] 0)
     = Some \<lparr>payload = [0xa9, 0x05, 0x9c, 0xbb], topics = []\<rparr>"
  apply (simp add: processRawTraceStep_def translateStep_def ex_raw_def Let_def getCodeAndMdHash_def
      bindE_def adjustStackFrame_def ex_lastExt1 stepEvent_def)
  apply (simp add: decodeSourceLoc_def ex_callFrame_def emittedEventOf_def numberAt_def wordAt_def bindE_def
      bigEndianBufToNumber_def bigEndian_toArray nTopicsOf_def charToNumber_def slice_def relIndex_def
      ex_memory_def Let_def StepVMState.defs StepState.defs)
  done


section \<open>External frames and depth along a trace\<close>

lemma nExternal_append: "nExternal (a @ b) = nExternal a + nExternal b"
  by (simp add: nExternal_def)

lemma adjust_Inr_nonempty:
  "adjustStackFrame env stk st trace cd h = Inr stk' \<Longrightarrow> stk \<noteq> []"
  by (auto simp: adjustStackFrame_def bindE_def lastExternalFrame_def split: if_splits)

lemma adjust_first: "adjustStackFrame env stk st [] cd h = Inr stk' \<Longrightarrow> stk' = stk"
  by (auto simp: adjustStackFrame_def bindE_def split: sum.splits)

lemma sameDepth_Inr:
  "sameDepth stk f st ls n = Inr stk' \<Longrightarrow>
     stk' = stk \<or> (\<exists>i. stk' = stk @ [Internal i])
     \<or> (stk \<noteq> [] \<and> stk' = butlast stk \<and> kind (last stk) = InternalCall)"
  unfolding sameDepth_def Let_def bindE_def
  by (auto split: sum.splits if_splits option.splits prod.splits simp: lastExternalFrame_def)

lemma isExternal_simps:
  "isExternal (External e)" "\<not> isExternal (Internal i)"
  by (cases e; simp add: isExternal_def)+

lemma nExternal_butlast:
  "stk \<noteq> [] \<Longrightarrow> kind (last stk) = InternalCall \<Longrightarrow> nExternal (butlast stk) = nExternal stk"
proof -
  assume a: "stk \<noteq> []" "kind (last stk) = InternalCall"
  then have "nExternal stk = nExternal (butlast stk @ [last stk])" by simp
  also have "\<dots> = nExternal (butlast stk)"
    using a(2) by (simp only: nExternal_snoc) (simp add: isExternal_def)
  finally show ?thesis by simp
qed

lemma adjust_nExternal:
  assumes "adjustStackFrame env stk st trace cd h = Inr stk'" and "trace \<noteq> []"
  shows "nExternal stk' =
           (if depth (last trace) < depth st then nExternal stk + 1
            else nExternal stk - (depth (last trace) - depth st))"
proof -
  have ne: "stk \<noteq> []" using assms(1) by (rule adjust_Inr_nonempty)
  consider (inc) "depth (last trace) < depth st" | (dec) "depth st < depth (last trace)"
    | (same) "depth (last trace) = depth st" by linarith
  then show ?thesis
  proof cases
    case inc
    then obtain e where "stk' = stk @ [External e]"
      using assms ne depthIncrease_Inr by (simp add: adjust_increase) blast
    then show ?thesis using inc by (simp add: nExternal_snoc isExternal_simps)
  next
    case dec
    let ?q = "depth (last trace) - depth st"
    have r: "stk' = popFrames ?q stk" using assms ne dec by (simp add: adjust_decrease)
    from popFrames_split[where stk=stk and n="?q"] obtain p where
      p: "popFrames ?q stk @ p = stk" "nExternal p = min ?q (nExternal stk)"
      by (elim exE conjE)
    have "nExternal stk = nExternal stk' + nExternal p"
      using p(1) r nExternal_append[of stk' p] by simp
    then show ?thesis using p(2) dec by (simp add: min_def split: if_splits)
  next
    case same
    then have "sameDepth stk (lastExternalFrame_of (last stk)) st (last trace) (length trace) = Inr stk'"
      using assms ne by (simp add: adjust_same)
    from sameDepth_Inr[OF this] show ?thesis
      using same by (auto simp: nExternal_snoc isExternal_simps nExternal_butlast)
  qed
qed


lemma step_depth_frames:
  assumes "processRawTraceStep env vm step trace stk fresh = Inr (s, stk', fresh')"
  shows "depth s = rawDepth step + 1" and "stack s = stk'"
    and "trace = [] \<Longrightarrow> stk' = stk"
    and "trace \<noteq> [] \<Longrightarrow> nExternal stk' =
           (if depth (last trace) < depth s then nExternal stk + 1
            else nExternal stk - (depth (last trace) - depth s))"
proof -
  from processRawTraceStep_Inr[OF assms] obtain st cd h where
    st: "translateStep env step trace fresh = (st, fresh')"
        "adjustStackFrame env stk st trace cd h = Inr stk'"
        "depth s = depth st" "stack s = stk'"
    by blast
  show "depth s = rawDepth step + 1" using st(3) translateStep_fields(2)[OF st(1)] by simp
  show "stack s = stk'" by (rule st(4))
  show "trace = [] \<Longrightarrow> stk' = stk" using st(2) adjust_first by blast
  show "trace \<noteq> [] \<Longrightarrow> nExternal stk' =
           (if depth (last trace) < depth s then nExternal stk + 1
            else nExternal stk - (depth (last trace) - depth s))"
    using adjust_nExternal[OF st(2)] st(3) by simp
qed

lemma runSteps_depth:
  assumes "runSteps env vm steps trace stk fresh = Inr (trace', stk', fresh')"
    and "risesByOne (map rawDepth steps)"
    and "trace = [] \<longrightarrow> nExternal stk = 1 \<and> (steps \<noteq> [] \<longrightarrow> rawDepth (hd steps) = 0)"
    and "trace \<noteq> [] \<longrightarrow> nExternal stk = depth (last trace)
           \<and> (steps \<noteq> [] \<longrightarrow> rawDepth (hd steps) \<le> depth (last trace))"
  shows "\<exists>new. trace' = trace @ new \<and> map depth new = map (\<lambda>r. rawDepth r + 1) steps
           \<and> (\<forall>s\<in>set new. nExternal (stack s) = depth s)"
  using assms
proof (induction steps arbitrary: trace stk fresh)
  case Nil
  then show ?case by simp
next
  case (Cons step rest)
  from Cons.prems(1) obtain s stk2 fresh2 where
    p: "processRawTraceStep env vm step trace stk fresh = Inr (s, stk2, fresh2)"
    and r: "runSteps env vm rest (trace @ [s]) stk2 fresh2 = Inr (trace', stk', fresh')"
    by (auto split: sum.splits)
  note f = step_depth_frames[OF p]
  have n: "nExternal stk2 = depth s"
  proof (cases "trace = []")
    case True
    then show ?thesis using f(1,3) Cons.prems(3) by simp
  next
    case False
    then show ?thesis using f(1) f(4)[OF False] Cons.prems(4) by (auto split: if_splits)
  qed
  have rb: "risesByOne (map rawDepth rest)"
    using Cons.prems(2) by (cases rest) simp_all
  have hd: "rest \<noteq> [] \<longrightarrow> rawDepth (hd rest) \<le> depth s"
    using Cons.prems(2) f(1) by (cases rest) simp_all
  from Cons.IH[OF r rb] n hd obtain new where
    new: "trace' = (trace @ [s]) @ new" "map depth new = map (\<lambda>r. rawDepth r + 1) rest"
         "\<forall>s\<in>set new. nExternal (stack s) = depth s"
    by auto
  have "trace' = trace @ (s # new)" using new(1) by simp
  moreover have "map depth (s # new) = map (\<lambda>r. rawDepth r + 1) (step # rest)"
    using new(2) f(1) by simp
  moreover have "\<forall>x\<in>set (s # new). nExternal (stack x) = depth x"
    using new(3) n f(2) by simp
  ultimately show ?case by blast
qed

lemma runSteps_steps:
  assumes "runSteps env vm steps trace stk fresh = Inr (trace', stk', fresh')"
    and "trace \<noteq> [] \<longrightarrow> stack (last trace) = stk"
  shows "\<exists>new. trace' = trace @ new \<and> length new = length steps
           \<and> (\<forall>i<length new. \<exists>f f'.
                  processRawTraceStep env vm (steps ! i) (trace @ take i new)
                    (if trace @ take i new = [] then stk else stack (last (trace @ take i new))) f
                  = Inr (new ! i, stack (new ! i), f'))"
  using assms
proof (induction steps arbitrary: trace stk fresh)
  case Nil
  then show ?case by simp
next
  case (Cons step rest)
  from Cons.prems(1) obtain s stk2 fresh2 where
    p: "processRawTraceStep env vm step trace stk fresh = Inr (s, stk2, fresh2)"
    and r: "runSteps env vm rest (trace @ [s]) stk2 fresh2 = Inr (trace', stk', fresh')"
    by (auto split: sum.splits)
  have s2: "stack s = stk2" by (rule step_depth_frames(2)[OF p])
  have l: "trace @ [s] \<noteq> [] \<longrightarrow> stack (last (trace @ [s])) = stk2" using s2 by simp
  from Cons.IH[OF r l] obtain new where
    new: "trace' = (trace @ [s]) @ new" "length new = length rest"
         "\<forall>i<length new. \<exists>f f'.
            processRawTraceStep env vm (rest ! i) ((trace @ [s]) @ take i new)
              (if (trace @ [s]) @ take i new = [] then stk2
               else stack (last ((trace @ [s]) @ take i new))) f
            = Inr (new ! i, stack (new ! i), f')"
    by blast
  have a: "trace' = trace @ (s # new)" using new(1) by simp
  have b: "length (s # new) = length (step # rest)" using new(2) by simp
  have c: "\<forall>i<length (s # new). \<exists>f f'.
             processRawTraceStep env vm ((step # rest) ! i) (trace @ take i (s # new))
               (if trace @ take i (s # new) = [] then stk
                else stack (last (trace @ take i (s # new)))) f
             = Inr ((s # new) ! i, stack ((s # new) ! i), f')"
  proof (intro allI impI)
    fix i assume i: "i < length (s # new)"
    show "\<exists>f f'.
             processRawTraceStep env vm ((step # rest) ! i) (trace @ take i (s # new))
               (if trace @ take i (s # new) = [] then stk
                else stack (last (trace @ take i (s # new)))) f
             = Inr ((s # new) ! i, stack ((s # new) ! i), f')"
    proof (cases i)
      case 0
      have e: "(if trace = [] then stk else stack (last trace)) = stk" using Cons.prems(2) by simp
      have "processRawTraceStep env vm step trace (if trace = [] then stk else stack (last trace)) fresh
              = Inr (s, stack s, fresh2)"
        unfolding e using p s2 by simp
      then show ?thesis
        unfolding 0 nth_Cons_0 take_0 append_Nil2 by blast
    next
      case (Suc j)
      then have "j < length new" using i by simp
      with new(3) obtain f f' where
        h: "processRawTraceStep env vm (rest ! j) ((trace @ [s]) @ take j new)
              (if (trace @ [s]) @ take j new = [] then stk2
               else stack (last ((trace @ [s]) @ take j new))) f
            = Inr (new ! j, stack (new ! j), f')" by blast
      have t: "trace @ take (Suc j) (s # new) = (trace @ [s]) @ take j new" by simp
      have ne: "(trace @ [s]) @ take j new \<noteq> []" by simp
      have "processRawTraceStep env vm (rest ! j) ((trace @ [s]) @ take j new)
              (stack (last ((trace @ [s]) @ take j new))) f
            = Inr (new ! j, stack (new ! j), f')"
        using h unfolding if_not_P[OF ne] .
      then show ?thesis
        unfolding Suc nth_Cons_Suc t if_not_P[OF ne] by blast
    qed
  qed
  from a b c show ?case by (intro exI[of _ "s # new"] conjI) assumption+
qed

lemma debugTx_steps:
  assumes "debugTx env vm tx vmSteps = Inr trace"
  shows "length trace = length vmSteps"
    and "Suc k < length trace \<Longrightarrow>
         \<exists>f f'. processRawTraceStep env vm (vmSteps ! Suc k) (take (Suc k) trace) (stack (trace ! k)) f
                 = Inr (trace ! Suc k, stack (trace ! Suc k), f')"
    and "i < length trace \<Longrightarrow> depth (trace ! i) = rawDepth (vmSteps ! i) + 1"
proof -
  from assms obtain stk' fresh' where
    r: "runSteps env vm vmSteps [] [initialFrame env vm tx] 0 = Inr (trace, stk', fresh')"
    by (auto simp: debugTx_def Let_def split: sum.splits)
  have triv: "([]::StepState list) \<noteq> [] \<longrightarrow> stack (last []) = [initialFrame env vm tx]"
    by simp
  from runSteps_steps[OF r triv] obtain new where
    n: "trace = [] @ new" "length new = length vmSteps"
       "\<forall>i<length new. \<exists>f f'.
                  processRawTraceStep env vm (vmSteps ! i) ([] @ take i new)
                    (if [] @ take i new = [] then [initialFrame env vm tx]
                     else stack (last ([] @ take i new))) f
                  = Inr (new ! i, stack (new ! i), f')"
    by blast
  have tn: "new = trace" using n(1) by simp
  have len: "length trace = length vmSteps" using n(2) tn by simp
  have st: "\<forall>i<length trace. \<exists>f f'.
                  processRawTraceStep env vm (vmSteps ! i) (take i trace)
                    (if take i trace = [] then [initialFrame env vm tx] else stack (last (take i trace))) f
                  = Inr (trace ! i, stack (trace ! i), f')"
    using n(3) unfolding tn append_Nil .
  show "length trace = length vmSteps" by (rule len)
  show "\<exists>f f'. processRawTraceStep env vm (vmSteps ! Suc k) (take (Suc k) trace) (stack (trace ! k)) f
                 = Inr (trace ! Suc k, stack (trace ! Suc k), f')" if "Suc k < length trace"
  proof -
    have l: "last (take (Suc k) trace) = trace ! k"
      using that by (simp add: take_Suc_conv_app_nth)
    have ne: "take (Suc k) trace \<noteq> []" using that by auto
    from st that have "\<exists>f f'.
                  processRawTraceStep env vm (vmSteps ! Suc k) (take (Suc k) trace)
                    (if take (Suc k) trace = [] then [initialFrame env vm tx]
                     else stack (last (take (Suc k) trace))) f
                  = Inr (trace ! Suc k, stack (trace ! Suc k), f')" by blast
    then show ?thesis unfolding if_not_P[OF ne] l .
  qed
  show "depth (trace ! i) = rawDepth (vmSteps ! i) + 1" if "i < length trace"
  proof -
    from st that obtain f f' where
      "processRawTraceStep env vm (vmSteps ! i) (take i trace)
                    (if take i trace = [] then [initialFrame env vm tx] else stack (last (take i trace))) f
                  = Inr (trace ! i, stack (trace ! i), f')" by blast
    then show ?thesis by (rule step_depth_frames(1))
  qed
qed

lemma step_decrease_pops:
  assumes "processRawTraceStep env vm step trace stk fresh = Inr (s, stk', fresh')"
    and "trace \<noteq> []" and "depth s < depth (last trace)"
  shows "\<exists>popped. stk = stk' @ popped
           \<and> nExternal popped = depth (last trace) - depth s
           \<and> popped \<noteq> [] \<and> isExternal (hd popped)"
proof -
  from processRawTraceStep_Inr[OF assms(1)] obtain st cd h curExt where
    st: "adjustStackFrame env stk st trace cd h = Inr stk'"
        "lastExternalFrame stk' = Inr curExt" "depth s = depth st"
    by blast
  let ?q = "depth (last trace) - depth s"
  have ne: "stk \<noteq> []" using st(1) by (rule adjust_Inr_nonempty)
  have ne': "stk' \<noteq> []" using lastExternalFrame_Inr[OF st(2)] by simp
  have r: "stk' = popFrames ?q stk"
    using st(1,3) assms(2,3) ne by (simp add: adjust_decrease)
  have pos: "0 < ?q" using assms(3) by simp
  from popFrames_split[where stk=stk and n="?q"] obtain p where
    p: "popFrames ?q stk @ p = stk" "nExternal p = min ?q (nExternal stk)"
       "nExternal stk < ?q \<longrightarrow> popFrames ?q stk = []"
       "0 < ?q \<and> ?q \<le> nExternal stk \<longrightarrow> p \<noteq> [] \<and> isExternal (hd p)"
    by (elim exE conjE)
  have le: "?q \<le> nExternal stk" using p(3) ne' r by auto
  have a: "stk = stk' @ p" using p(1) r by simp
  have b: "nExternal p = ?q" using p(2) le by simp
  have c: "p \<noteq> []" and d: "isExternal (hd p)" using p(4) pos le by simp_all
  from a b c d show ?thesis by (intro exI[of _ p] conjI) assumption+
qed

text \<open>
  C2. When the depth decreases between consecutive recorded steps \<open>k\<close> and \<open>k + 1\<close>,
  the frames popped from the top of the stack hold exactly as many external (Call or
  Creation) frames as the depth went down; internal frames on top of them are popped as
  well and are not counted, and the popping stops right after the last external frame
  that counts (the lowest frame popped is external).
\<close>

theorem depth_decrease_pops:
  assumes "debugTx env vm tx vmSteps = Inr trace"
    and "Suc k < length trace"
    and "depth (trace ! Suc k) < depth (trace ! k)"
  shows "\<exists>popped. stack (trace ! k) = stack (trace ! Suc k) @ popped
           \<and> nExternal popped = depth (trace ! k) - depth (trace ! Suc k)
           \<and> popped \<noteq> [] \<and> isExternal (hd popped)"
proof -
  from debugTx_steps(2)[OF assms(1,2)] obtain f f' where
    p: "processRawTraceStep env vm (vmSteps ! Suc k) (take (Suc k) trace) (stack (trace ! k)) f
          = Inr (trace ! Suc k, stack (trace ! Suc k), f')" by blast
  have l: "last (take (Suc k) trace) = trace ! k"
    using assms(2) by (simp add: take_Suc_conv_app_nth)
  have ne: "take (Suc k) trace \<noteq> []" using assms(2) by auto
  from step_decrease_pops[OF p ne] assms(3) l show ?thesis by simp
qed

lemma initialFrame_external: "isExternal (initialFrame env vm tx)"
  by (simp add: initialFrame_def Let_def isExternal_simps)

text \<open>
  C1. Every recorded step has the VM-reported depth plus one as its depth (the outermost
  frame has depth 1), and the number of external (Call or Creation) frames in its
  frame-stack snapshot equals that depth. The step events are those of the VM: the first
  is at VM depth 0 and none is more than one level deeper than the one before it.
\<close>

theorem external_frames_match_depth:
  assumes "debugTx env vm tx vmSteps = Inr trace"
  shows "map depth trace = map (\<lambda>r. rawDepth r + 1) vmSteps
         \<and> (vmDepthsWellFormed (map rawDepth vmSteps) \<longrightarrow>
              (\<forall>s\<in>set trace. nExternal (stack s) = depth s))"
proof -
  from assms obtain stk' fresh' where
    r: "runSteps env vm vmSteps [] [initialFrame env vm tx] 0 = Inr (trace, stk', fresh')"
    by (auto simp: debugTx_def Let_def split: sum.splits)
  have d: "map depth trace = map (\<lambda>r. rawDepth r + 1) vmSteps"
    using debugTx_steps(1,3)[OF assms] by (intro nth_equalityI) simp_all
  have "\<forall>s\<in>set trace. nExternal (stack s) = depth s"
    if w: "vmDepthsWellFormed (map rawDepth vmSteps)"
  proof -
    have a: "risesByOne (map rawDepth vmSteps)"
      using w by (simp add: vmDepthsWellFormed_def)
    have b: "vmSteps \<noteq> [] \<longrightarrow> rawDepth (hd vmSteps) = 0"
      using w by (cases vmSteps) (simp_all add: vmDepthsWellFormed_def)
    have c: "nExternal [initialFrame env vm tx] = 1"
      by (simp add: nExternal_def initialFrame_external)
    from runSteps_depth[OF r a] b c show ?thesis by simp
  qed
  then show ?thesis using d by simp
qed

section \<open>Concrete runs\<close>

lemmas ex_eval =
  processRawTraceStep_def translateStep_def ex_raw_def Let_def getCodeAndMdHash_def
  bindE_def adjustStackFrame_def lastExternalFrame_def decodeSourceLoc_def emittedEventOf_def
  StepVMState.defs StepState.defs ex_env_def ex_vm_def

lemma ex_addr_zero: "(ex_addr b = ZERO_ADDRESS) = (b = 0)"
proof -
  have "replicate 20 (0::byte) = replicate (Suc 19) 0" by simp
  also have "\<dots> = replicate 19 0 @ [0]" by (simp only: replicate_Suc replicate_append_same)
  finally show ?thesis by (simp add: ex_addr_def ZERO_ADDRESS_def)
qed

lemma ex_initial:
  "initialFrame ex_env ex_vm (ex_tx (Some (ex_addr 3))) =
     External (CallF \<lparr>callee = None, arguments = None, startStep = 0,
                      sender = Address_toString (ex_addr 1), msgData = [0xa9, 0x05, 0x9c, 0xbb],
                      address = ex_addr 3, info = None,
                      receiver = Address_toString (ex_addr 3), code = []\<rparr>)"
proof -
  have "ex_addr 3 \<noteq> ZERO_ADDRESS" by (simp add: ex_addr_zero)
  then have "initialFrame ex_env ex_vm (ex_tx (Some (ex_addr 3))) =
     External (CallF (makeCallFrame ex_env (Address_toString (ex_addr 1)) (ex_addr 3) [0xa9, 0x05, 0x9c, 0xbb]
                           (getContractCode ex_vm (ex_addr 3)) (getCodeHash ex_env (getContractCode ex_vm (ex_addr 3))) 0))"
    by (simp add: initialFrame_def Let_def Address_toString_zero ex_tx_def)
  also have "getContractCode ex_vm (ex_addr 3) = []" by (simp add: ex_vm_def ex_addr_def)
  finally show ?thesis by (simp add: makeCallFrame_def ex_env_def)
qed


lemmas ex_eval2 =
  depthIncrease_def sameDepth_def increasesDepth_def createsContract_def
  OPCODES_CALL_def OPCODES_CALLCODE_def OPCODES_DELEGATECALL_def OPCODES_STATICCALL_def
  OPCODES_CREATE_def OPCODES_CREATE2_def OPCODES_SSTORE_def
  numberAt_def wordAt_def bigEndianBufToNumber_def bigEndian_toArray
  makeCallFrame_def wordToAddress_def nExternal_def isExternal_def getStorage_def

text \<open>
  The condition on the depths is used. Step events whose depth goes from 0 to 2 after a
  CALL, which no VM emits, are processed as an increase by one: the second step
  is recorded with depth 3 and two external frames.
\<close>

lemma depth_jump_run:
  "traceDepths (debugTx ex_env ex_vm (ex_tx (Some (ex_addr 3)))
      [ex_raw ''CALL'' 0 0 [0, 0, 4, 0, 0, 2, 9], ex_raw ''STOP'' 0 2 []])
   = Some [(1, 1), (3, 2)]"
  apply (simp add: debugTx_def ex_initial traceDepths_def)
  apply (simp add: ex_eval ex_opInfo_def ex_addr_def)
  apply (simp add: ex_eval ex_eval2 ex_addr_def)
  done


section \<open>Sharing of memory and storage\<close>

lemma step_shares:
  assumes p: "processRawTraceStep env vm step trace stk fresh = Inr (s, stk', fresh')"
    and inv: "\<forall>t\<in>set trace. memRef (memory t) < fresh \<and> stoRef (storage t) < fresh"
  shows "trace \<noteq> [] \<Longrightarrow> stepShares env trace step s"
    and "\<forall>t\<in>set (trace @ [s]). memRef (memory t) < fresh' \<and> stoRef (storage t) < fresh'"
proof -
  from processRawTraceStep_Inr[OF p] obtain st where
    st: "translateStep env step trace fresh = (st, fresh')"
        "memory s = memory st" "storage s = storage st"
    by blast
  note f = translateStep_fields(5,6,7)[OF st(1)]
  have l: "trace \<noteq> [] \<Longrightarrow> memRef (memory (last trace)) < fresh \<and> stoRef (storage (last trace)) < fresh"
    using inv by simp
  show "trace \<noteq> [] \<Longrightarrow> stepShares env trace step s"
    using inv f st(2,3) by (auto simp: stepShares_def getStorage_def Let_def)
  show "\<forall>t\<in>set (trace @ [s]). memRef (memory t) < fresh' \<and> stoRef (storage t) < fresh'"
  proof
    fix t assume "t \<in> set (trace @ [s])"
    then consider "t \<in> set trace" | "t = s" by auto
    then show "memRef (memory t) < fresh' \<and> stoRef (storage t) < fresh'"
    proof cases
      case 1
      then have "memRef (memory t) < fresh \<and> stoRef (storage t) < fresh" using inv by simp
      then show ?thesis using f(3) by simp
    next
      case 2
      show ?thesis
      proof (cases "trace = []")
        case True
        then show ?thesis using 2 f st(2,3) by (simp add: getStorage_def Let_def)
      next
        case False
        then show ?thesis using 2 f st(2,3) l[OF False]
          by (auto simp: getStorage_def Let_def)
      qed
    qed
  qed
qed

lemma runSteps_shares:
  assumes "runSteps env vm steps trace stk fresh = Inr (trace', stk', fresh')"
    and "\<forall>t\<in>set trace. memRef (memory t) < fresh \<and> stoRef (storage t) < fresh"
  shows "\<exists>new. trace' = trace @ new \<and> length new = length steps
           \<and> (\<forall>i<length new. trace @ take i new \<noteq> [] \<longrightarrow>
                  stepShares env (trace @ take i new) (steps ! i) (new ! i))"
  using assms
proof (induction steps arbitrary: trace stk fresh)
  case Nil
  then show ?case by simp
next
  case (Cons step rest)
  from Cons.prems(1) obtain s stk2 fresh2 where
    p: "processRawTraceStep env vm step trace stk fresh = Inr (s, stk2, fresh2)"
    and r: "runSteps env vm rest (trace @ [s]) stk2 fresh2 = Inr (trace', stk', fresh')"
    by (auto split: sum.splits)
  note sh = step_shares[OF p Cons.prems(2)]
  from Cons.IH[OF r sh(2)] obtain new where
    new: "trace' = (trace @ [s]) @ new" "length new = length rest"
         "\<forall>i<length new. (trace @ [s]) @ take i new \<noteq> [] \<longrightarrow>
                  stepShares env ((trace @ [s]) @ take i new) (rest ! i) (new ! i)"
    by blast
  have a: "trace' = trace @ (s # new)" using new(1) by simp
  have b: "length (s # new) = length (step # rest)" using new(2) by simp
  have c: "\<forall>i<length (s # new). trace @ take i (s # new) \<noteq> [] \<longrightarrow>
             stepShares env (trace @ take i (s # new)) ((step # rest) ! i) ((s # new) ! i)"
  proof (intro allI impI)
    fix i assume i: "i < length (s # new)" and ne: "trace @ take i (s # new) \<noteq> []"
    show "stepShares env (trace @ take i (s # new)) ((step # rest) ! i) ((s # new) ! i)"
    proof (cases i)
      case 0
      then show ?thesis using ne sh(1) by simp
    next
      case (Suc j)
      then show ?thesis using new(3) i by simp
    qed
  qed
  from a b c show ?case by blast
qed

text \<open>
  C7. For consecutive steps \<open>k\<close> and \<open>k + 1\<close> of a recorded trace: when the opcode of
  step \<open>k\<close> is memory-changing, the memory of step \<open>k + 1\<close> is a new object (its
  reference is held by no earlier step) with the bytes of the raw VM buffer, and
  otherwise it is the very object of step \<open>k\<close>; when the opcode of step \<open>k\<close> is
  SSTORE, the storage of step \<open>k + 1\<close> is a new object read from the state manager,
  and otherwise it is the very object of step \<open>k\<close>.
\<close>

theorem memory_storage_sharing:
  assumes "debugTx env vm tx vmSteps = Inr trace" and "Suc k < length trace"
  shows "(changesMemory env (op (trace ! k)) \<longrightarrow>
            memBytes (memory (trace ! Suc k)) = rawMemory (vmSteps ! Suc k)
            \<and> (\<forall>j\<le>k. memRef (memory (trace ! Suc k)) \<noteq> memRef (memory (trace ! j))))
       \<and> (\<not> changesMemory env (op (trace ! k)) \<longrightarrow> memory (trace ! Suc k) = memory (trace ! k))
       \<and> (opcode (op (trace ! k)) = OPCODES_SSTORE \<longrightarrow>
            stoMap (storage (trace ! Suc k))
              = stoMap (getStorage env (rawStateManager (vmSteps ! Suc k)) (rawAddress (vmSteps ! Suc k)) 0)
            \<and> (\<forall>j\<le>k. stoRef (storage (trace ! Suc k)) \<noteq> stoRef (storage (trace ! j))))
       \<and> (opcode (op (trace ! k)) \<noteq> OPCODES_SSTORE \<longrightarrow> storage (trace ! Suc k) = storage (trace ! k))"
proof -
  from assms(1) obtain stk' fresh' where
    r: "runSteps env vm vmSteps [] [initialFrame env vm tx] 0 = Inr (trace, stk', fresh')"
    by (auto simp: debugTx_def Let_def split: sum.splits)
  from runSteps_shares[OF r] assms(2)
  have sh: "stepShares env (take (Suc k) trace) (vmSteps ! Suc k) (trace ! Suc k)"
    by auto
  have l: "last (take (Suc k) trace) = trace ! k"
    using assms(2) by (simp add: take_Suc_conv_app_nth)
  have m: "trace ! j \<in> set (take (Suc k) trace)" if "j \<le> k" for j
  proof -
    have "take (Suc k) trace ! j = trace ! j" using that by simp
    moreover have "j < length (take (Suc k) trace)" using that assms(2) by simp
    ultimately show ?thesis by (metis nth_mem)
  qed
  show ?thesis
    using sh m unfolding stepShares_def l
    by (auto split: if_splits)
qed


section \<open>The theorems on concrete runs\<close>

lemma ex_run_call:
  "traceDepths (debugTx ex_env ex_vm (ex_tx (Some (ex_addr 3)))
      [ex_raw ''CALL'' 0 0 [0, 0, 4, 0, 0, 2, 9], ex_raw ''STOP'' 0 1 [], ex_raw ''STOP'' 1 0 []])
   = Some [(1, 1), (2, 2), (1, 1)]"
  apply (simp add: debugTx_def ex_initial traceDepths_def)
  apply (simp add: ex_eval ex_opInfo_def ex_addr_def)
  apply (simp add: ex_eval ex_eval2 ex_addr_def popFrames.simps)
  done

text \<open>
  An instance: a CALL at VM depth 0, a step at depth 1 and a step back at depth 0.
\<close>

theorem external_frames_match_depth_witness:
  "vmDepthsWellFormed (map rawDepth
      [ex_raw ''CALL'' 0 0 [0, 0, 4, 0, 0, 2, 9], ex_raw ''STOP'' 0 1 [], ex_raw ''STOP'' 1 0 []])
   \<and> (\<exists>tr. debugTx ex_env ex_vm (ex_tx (Some (ex_addr 3)))
               [ex_raw ''CALL'' 0 0 [0, 0, 4, 0, 0, 2, 9], ex_raw ''STOP'' 0 1 [], ex_raw ''STOP'' 1 0 []]
             = Inr tr
           \<and> map depth tr = [1, 2, 1]
           \<and> map (\<lambda>s. nExternal (stack s)) tr = map depth tr)"
proof -
  let ?S = "[ex_raw ''CALL'' 0 0 [0, 0, 4, 0, 0, 2, 9], ex_raw ''STOP'' 0 1 [], ex_raw ''STOP'' 1 0 []]"
  have w: "vmDepthsWellFormed (map rawDepth ?S)"
    by (simp add: vmDepthsWellFormed_def ex_raw_def)
  obtain tr where tr: "debugTx ex_env ex_vm (ex_tx (Some (ex_addr 3))) ?S = Inr tr"
    using ex_run_call by (cases "debugTx ex_env ex_vm (ex_tx (Some (ex_addr 3))) ?S")
      (simp_all add: traceDepths_def)
  note t = external_frames_match_depth[OF tr]
  have "map depth tr = [1, 2, 1]" using conjunct1[OF t] by (simp add: ex_raw_def)
  moreover have "map (\<lambda>s. nExternal (stack s)) tr = map depth tr"
    using conjunct2[OF t] w by simp
  ultimately show ?thesis using w tr
    by (intro conjI exI[of _ tr]) assumption+
qed

lemma ex_run_internal:
  "traceStacks (debugTx ex_env ex_vm (ex_tx (Some (ex_addr 3)))
      [ex_raw ''CALL'' 0 0 [0, 0, 4, 0, 0, 2, 9],
       ex_rawAt (ex_addr 2) ''JUMP'' 10 1 [],
       ex_rawAt (ex_addr 2) ''JUMPDEST'' 20 1 [1, 2, 3],
       ex_raw ''STOP'' 1 0 []])
   = Some [(1, [Call]), (2, [Call, Call]), (2, [Call, Call, InternalCall]), (1, [Call])]"
  apply (simp add: debugTx_def ex_initial traceStacks_def)
  apply (simp add: ex_eval ex_rawAt_def ex_opInfo_def ex_addr_def)
  apply (simp add: ex_eval ex_eval2 ex_rawAt_def ex_addr_def ex_opInfo_def ex_info_def ex_srcAt_def getOffsetSrc_def
      slice_def relIndex_def ex_memory_def toHex_def byteToHex_def hexDigit_def resolveCallee_def ex_fun_def
      internalCallArgs_def decodeFunArgs_def ex_param_def isCalldataType2Slots_def popFrames.simps)
  done

text \<open>
  An instance: a CALL at VM depth 0, a callee that jumps into an internal function at
  depth 1, and a step back at depth 0: the internal frame and the Call frame under it are
  popped.
\<close>

theorem depth_decrease_pops_witness:
  "\<exists>tr. debugTx ex_env ex_vm (ex_tx (Some (ex_addr 3)))
           [ex_raw ''CALL'' 0 0 [0, 0, 4, 0, 0, 2, 9],
            ex_rawAt (ex_addr 2) ''JUMP'' 10 1 [],
            ex_rawAt (ex_addr 2) ''JUMPDEST'' 20 1 [1, 2, 3],
            ex_raw ''STOP'' 1 0 []] = Inr tr
       \<and> length tr = 4
       \<and> depth (tr ! 3) < depth (tr ! 2)
       \<and> (\<exists>popped. stack (tr ! 2) = stack (tr ! 3) @ popped
             \<and> nExternal popped = 1
             \<and> map kind popped = [Call, InternalCall])"
proof -
  let ?S = "[ex_raw ''CALL'' 0 0 [0, 0, 4, 0, 0, 2, 9],
            ex_rawAt (ex_addr 2) ''JUMP'' 10 1 [],
            ex_rawAt (ex_addr 2) ''JUMPDEST'' 20 1 [1, 2, 3],
            ex_raw ''STOP'' 1 0 []]"
  obtain tr where tr: "debugTx ex_env ex_vm (ex_tx (Some (ex_addr 3))) ?S = Inr tr"
    using ex_run_internal by (cases "debugTx ex_env ex_vm (ex_tx (Some (ex_addr 3))) ?S")
      (simp_all add: traceStacks_def)
  have m: "map (\<lambda>s. (depth s, map kind (stack s))) tr
             = [(1, [Call]), (2, [Call, Call]), (2, [Call, Call, InternalCall]), (1, [Call])]"
    using ex_run_internal tr by (simp add: traceStacks_def)
  have len: "length tr = 4" using arg_cong[OF m, of length] by simp
  have e2: "depth (tr ! 2) = 2" "map kind (stack (tr ! 2)) = [Call, Call, InternalCall]"
    using arg_cong[OF m, of "\<lambda>l. l ! 2"] len by simp_all
  have e3: "depth (tr ! 3) = 1" "map kind (stack (tr ! 3)) = [Call]"
    using arg_cong[OF m, of "\<lambda>l. l ! 3"] len by simp_all
  have k: "Suc 2 < length tr" using len by simp
  have d: "depth (tr ! Suc 2) < depth (tr ! 2)" using e2(1) e3(1) by (simp add: numeral_3_eq_3)
  from depth_decrease_pops[OF tr k d] obtain popped where
    p: "stack (tr ! 2) = stack (tr ! Suc 2) @ popped"
       "nExternal popped = depth (tr ! 2) - depth (tr ! Suc 2)"
    by blast
  have p1: "stack (tr ! 2) = stack (tr ! 3) @ popped" using p(1) by (simp add: numeral_3_eq_3)
  have p2: "nExternal popped = 1" using p(2) e2(1) e3(1) by (simp add: numeral_3_eq_3)
  have "map kind (stack (tr ! 2)) = map kind (stack (tr ! 3)) @ map kind popped"
    using arg_cong[OF p1, of "map kind"] by simp
  then have p3: "map kind popped = [Call, InternalCall]" using e2(2) e3(2) by simp
  have d': "depth (tr ! 3) < depth (tr ! 2)" using e2(1) e3(1) by simp
  have "\<exists>popped. stack (tr ! 2) = stack (tr ! 3) @ popped
             \<and> nExternal popped = 1
             \<and> map kind popped = [Call, InternalCall]"
    using p1 p2 p3 by (intro exI[of _ popped] conjI) assumption+
  then show ?thesis using tr len d'
    by (intro exI[of _ tr] conjI) assumption+
qed

lemma ex_run_stores:
  "traceOpcodes (debugTx ex_env ex_vm (ex_tx (Some (ex_addr 3)))
      [ex_raw ''MSTORE'' 0 0 [], ex_raw ''SSTORE'' 1 0 [], ex_raw ''STOP'' 2 0 []])
   = Some [0x52, 0x55, 0]"
  apply (simp add: debugTx_def ex_initial traceOpcodes_def)
  apply (simp add: ex_eval ex_opInfo_def ex_addr_def)
  apply (simp add: ex_eval ex_eval2 ex_addr_def ex_opInfo_def)
  done

text \<open>
  An instance: an MSTORE, an SSTORE and a STOP at the same depth.
\<close>

theorem memory_storage_sharing_witness:
  "\<exists>tr. debugTx ex_env ex_vm (ex_tx (Some (ex_addr 3)))
           [ex_raw ''MSTORE'' 0 0 [], ex_raw ''SSTORE'' 1 0 [], ex_raw ''STOP'' 2 0 []] = Inr tr
       \<and> length tr = 3
       \<and> memBytes (memory (tr ! 1)) = ex_memory
       \<and> memRef (memory (tr ! 1)) \<noteq> memRef (memory (tr ! 0))
       \<and> storage (tr ! 1) = storage (tr ! 0)
       \<and> memory (tr ! 2) = memory (tr ! 1)
       \<and> stoRef (storage (tr ! 2)) \<noteq> stoRef (storage (tr ! 1))
       \<and> stoRef (storage (tr ! 2)) \<noteq> stoRef (storage (tr ! 0))"
proof -
  let ?S = "[ex_raw ''MSTORE'' 0 0 [], ex_raw ''SSTORE'' 1 0 [], ex_raw ''STOP'' 2 0 []]"
  obtain tr where tr: "debugTx ex_env ex_vm (ex_tx (Some (ex_addr 3))) ?S = Inr tr"
    using ex_run_stores by (cases "debugTx ex_env ex_vm (ex_tx (Some (ex_addr 3))) ?S")
      (simp_all add: traceOpcodes_def)
  have ops: "map (\<lambda>s. opcode (op s)) tr = [0x52, 0x55, 0]"
    using ex_run_stores tr by (simp add: traceOpcodes_def)
  then have len: "length tr = 3" by (metis length_map length_Cons list.size(3) numeral_3_eq_3)
  have o: "opcode (op (tr ! 0)) = 0x52" "opcode (op (tr ! 1)) = 0x55"
    using arg_cong[OF ops, of "\<lambda>l. l ! 0"] arg_cong[OF ops, of "\<lambda>l. l ! 1"] len by simp_all
  have c: "changesMemory ex_env (op (tr ! 0))" "\<not> changesMemory ex_env (op (tr ! 1))"
    using o by (simp_all add: ex_env_def)
  have s: "opcode (op (tr ! 0)) \<noteq> OPCODES_SSTORE" "opcode (op (tr ! 1)) = OPCODES_SSTORE"
    using o by (simp_all add: OPCODES_SSTORE_def)
  from memory_storage_sharing[OF tr, of 0] memory_storage_sharing[OF tr, of 1] len c s
  have "memBytes (memory (tr ! 1)) = ex_memory
       \<and> memRef (memory (tr ! 1)) \<noteq> memRef (memory (tr ! 0))
       \<and> storage (tr ! 1) = storage (tr ! 0)
       \<and> memory (tr ! 2) = memory (tr ! 1)
       \<and> stoRef (storage (tr ! 2)) \<noteq> stoRef (storage (tr ! 1))
       \<and> stoRef (storage (tr ! 2)) \<noteq> stoRef (storage (tr ! 0))"
    by (simp add: ex_raw_def numeral_2_eq_2)
  then show ?thesis using tr len
    by (intro exI[of _ tr] conjI) (elim conjE, assumption)+
qed

text \<open>
  Three instances: no recipient, the zero address as recipient, and another recipient.
\<close>

theorem initialFrame_kind_witness:
  "initialFrame ex_env ex_vm (ex_tx None) =
     External (CreationF (makeCreationFrame ex_env (Address_toString (ex_addr 1)) [0xa9, 0x05, 0x9c, 0xbb] 0))
   \<and> initialFrame ex_env ex_vm (ex_tx (Some ZERO_ADDRESS)) =
     External (CreationF (makeCreationFrame ex_env (Address_toString (ex_addr 1)) [0xa9, 0x05, 0x9c, 0xbb] 0))
   \<and> initialFrame ex_env ex_vm (ex_tx (Some (ex_addr 2))) =
     External (CallF (makeCallFrame ex_env (Address_toString (ex_addr 1)) (ex_addr 2) [0xa9, 0x05, 0x9c, 0xbb]
                        [0x5b] (Some ''md'') 0))"
  using initialFrame_kind[of "ex_tx None" ex_env ex_vm]
    initialFrame_kind[of "ex_tx (Some ZERO_ADDRESS)" ex_env ex_vm]
    initialFrame_kind[of "ex_tx (Some (ex_addr 2))" ex_env ex_vm]
  by (simp add: ex_tx_def ex_addr_zero ex_vm_def ex_env_def)

text \<open>
  An instance: a LOG2 step over a stack of five words.
\<close>

theorem log_event_witness:
  "stepEvent (processRawTraceStep ex_env ex_vm (ex_raw ''LOG2'' 0 0 [7, 6, 5, 4, 0]) [] [ex_callFrame None] 0)
     = Some \<lparr>payload = [0xa9, 0x05, 0x9c, 0xbb], topics = [5, 6]\<rparr>"
proof -
  let ?r = "processRawTraceStep ex_env ex_vm (ex_raw ''LOG2'' 0 0 [7, 6, 5, 4, 0]) [] [ex_callFrame None] 0"
  have "\<exists>x. ?r = Inr x"
    apply (simp add: processRawTraceStep_def translateStep_def ex_raw_def Let_def getCodeAndMdHash_def
      bindE_def adjustStackFrame_def ex_lastExt1)
    apply (simp add: decodeSourceLoc_def ex_callFrame_def emittedEventOf_def numberAt_def wordAt_def bindE_def)
    done
  then obtain s stk' fresh' where r: "?r = Inr (s, stk', fresh')" by (metis prod_cases3)
  have n: "rawOpName (ex_raw ''LOG2'' 0 0 [7, 6, 5, 4, 0]) = ''LOG2''"
    and st: "rawStack (ex_raw ''LOG2'' 0 0 [7, 6, 5, 4, 0]) = [7, 6, 5, 4, 0]"
    by (simp_all add: ex_raw_def)
  have e: "evmStack s = map toArray_be32 [7, 6, 5, 4, 0]"
    and m: "memory s = \<lparr>memRef = 0, memBytes = ex_memory\<rparr>"
    using processRawTraceStep_Inr[OF r] translateStep_fields(1,5) st
    by (auto simp: ex_raw_def)
  have h: "take 3 (rawOpName (ex_raw ''LOG2'' 0 0 [7, 6, 5, 4, 0])) = ''LOG''"
      "3 < length (rawOpName (ex_raw ''LOG2'' 0 0 [7, 6, 5, 4, 0]))" "(2::nat) < 10"
      "rawOpName (ex_raw ''LOG2'' 0 0 [7, 6, 5, 4, 0]) ! 3 = ''0123456789'' ! 2"
      "2 + 2 \<le> length (evmStack s)"
    by (simp_all add: n e)
  from log_event[OF r h refl]
  have "emittedEvent s = Some \<lparr>payload = [0xa9, 0x05, 0x9c, 0xbb], topics = [5, 6]\<rparr>"
    by (simp add: e m bigEndianBufToNumber_def bigEndian_toArray slice_def relIndex_def ex_memory_def)
  then show ?thesis by (simp add: r stepEvent_def)
qed


end
